theory Spec2Isabelle
  imports Main "HOL-Library.Monad_Syntax"
begin

section \<open>The revisions server plugin (server/cloud9/ext/revisions/revisions.js)\<close>

text \<open>
  The plugin keeps, per document path, a history object: the original text of the
  document and the list of revisions saved since, each carrying a patch. Histories are
  held in an in-memory table (\<^verbatim>\<open>this.revisions\<close>) and in one file per document
  (\<^verbatim>\<open>absolute path + ".c9save"\<close>).

  The JavaScript is callback based. Each operation is modelled as a function from the
  plugin state to a result and the state at the moment the operation's callback runs;
  the error argument of a callback is the \<open>Inl\<close> side of the result. Operations are
  taken one at a time: no other event runs between an I/O request and its continuation.

  Conventions of the model:
  \<^item> paths, file contents and documents are strings; a missing (\<^verbatim>\<open>undefined\<close>)
    value is \<open>None\<close>;
  \<^item> \<^verbatim>\<open>this.revisions\<close> is a plain object: reading it at a key finds the entry stored
    under the key or, when there is none, the member of \<^verbatim>\<open>Object.prototype\<close> of that
    name;
  \<^item> a revision file that parses holds a history object with its three fields.
\<close>

subsection \<open>Data\<close>

text \<open>
  One revision, as built by \<^verbatim>\<open>saveRevisionFromMsg\<close> or sent by the client with
  \<^verbatim>\<open>saveRevision\<close>. \<open>'p\<close> is what the diff library takes as its first argument of
  \<^verbatim>\<open>patch_apply\<close>; the field \<^verbatim>\<open>patch\<close> is an array of them, of which the code uses
  element 0. \<open>rev_lastContent\<close> is the \<^verbatim>\<open>lastContent\<close> member that \<^verbatim>\<open>saveRevision\<close>
  reads from the client's revision.
\<close>

record 'p revision =
  ts :: nat
  silentsave :: "bool option"
  restoring :: "bool option"
  patch :: "'p list"
  length_rev :: nat
  contributors :: "string list option"
  rev_lastContent :: "string option"

text \<open>The history object of one document (\<^verbatim>\<open>revObj\<close>).\<close>

record 'p revObj =
  originalContent :: string
  revisions :: "'p revision list"
  lastContent :: "string option"

record user =
  email :: "string option"

text \<open>
  The members of a client message that the save path reads; \<^verbatim>\<open>content\<close>, when the client
  sends it, is a string.
\<close>

record message =
  path :: string
  content :: "string option"
  msg_silentsave :: "bool option"
  msg_restoring :: "bool option"
  msg_contributors :: "string list option"

text \<open>
  A Concorde session: an object without a \<^verbatim>\<open>getDocument\<close> member, or one whose
  \<^verbatim>\<open>getDocument()\<close> gives nothing (\<open>None\<close>) or a document with the given text.
  \<^verbatim>\<open>getCurrentDoc\<close> treats a key without session and a session without \<^verbatim>\<open>getDocument\<close>
  alike, so a member of \<^verbatim>\<open>Object.prototype\<close> found under a key of the session table
  (none has a \<^verbatim>\<open>getDocument\<close>) needs no value of its own.
\<close>

datatype docSession = NoGetDocument | WithDocument "string option"

datatype receiver = ToUser user | ToIde

text \<open>The \<^verbatim>\<open>options\<close> argument of \<^verbatim>\<open>broadcastRevisions\<close>.\<close>

record options =
  opt_path :: string
  getOriginalContent :: bool

text \<open>
  What \<^verbatim>\<open>broadcastRevisions\<close> hands to \<^verbatim>\<open>receiver.broadcast\<close>: the \<^verbatim>\<open>data\<close> object
  with \<^verbatim>\<open>type: "revision"\<close>, before it is turned into text.
\<close>

record 'p envelope =
  receiver :: receiver
  subtype :: string
  body :: "'p revObj"
  data_originalContent :: "string option"
  data_path :: "string option"

datatype error =
    NoWorkspaceDir
  | ReadError string
  | ParseError string
  | WriteError string
  | ContentUnavailable string
  | CouldNotRetrieve string
  | NoPathOrHistory string
  | BackupMissing string
  | CouldNotSave string
  | TypeError

text \<open>
  Code that the plugin calls and that is not part of it: the diff library
  (\<^verbatim>\<open>Diff.patch_make\<close>, and \<^verbatim>\<open>Diff.patch_apply(p, text)[0]\<close>), the three functions of
  \<^verbatim>\<open>path_utils.js\<close>, and \<^verbatim>\<open>JSON.stringify\<close> / \<^verbatim>\<open>JSON.parse\<close> on history objects
  (\<open>None\<close> when \<^verbatim>\<open>JSON.parse\<close> throws). They are parameters of every operation.
\<close>

record 'p env =
  patch_make :: "string \<Rightarrow> string \<Rightarrow> 'p"
  patch_apply :: "'p \<Rightarrow> string \<Rightarrow> string"
  getAbsolutePath :: "string \<Rightarrow> string"
  getRealFile :: "string \<Rightarrow> string"
  getSessionStylePath :: "string \<Rightarrow> string"
  json_stringify :: "'p revObj \<Rightarrow> string"
  json_parse :: "string \<Rightarrow> 'p revObj option"

text \<open>
  The plugin instance and what it touches: \<^verbatim>\<open>this.ide.workspaceDir\<close>,
  the entries stored in \<^verbatim>\<open>this.revisions\<close> (\<open>revisions_cache\<close>), \<^verbatim>\<open>this.docQueue\<close>, the files on disk, the
  paths on which \<^verbatim>\<open>Fs.readFile\<close> and \<^verbatim>\<open>Fs.writeFile\<close> report an error although the
  file is there, the Concorde sessions, the envelopes broadcast so far, and the clock
  read by \<^verbatim>\<open>Date.now()\<close>.
\<close>

record 'p plugin =
  workspaceDir :: "string option"
  revisions_cache :: "string \<rightharpoonup> 'p revObj"
  docQueue :: "(user \<times> message) list"
  files :: "string \<rightharpoonup> string"
  read_fails :: "string set"
  write_fails :: "string set"
  sessions :: "string \<rightharpoonup> docSession"
  sent :: "'p envelope list"
  now :: nat

definition FILE_SUFFIX :: string where
  "FILE_SUFFIX = ''c9save''"

text \<open>JavaScript truthiness of a string that may be missing.\<close>

fun truthy :: "string option \<Rightarrow> bool" where
  "truthy None = False"
| "truthy (Some t) = (t \<noteq> [])"

subsection \<open>The file system\<close>

definition path_exists :: "'p plugin \<Rightarrow> string \<Rightarrow> bool" where
  "path_exists s p = (files s p \<noteq> None)"

definition readFile :: "'p plugin \<Rightarrow> string \<Rightarrow> error + string" where
  "readFile s p =
     (case files s p of
        None \<Rightarrow> Inl (ReadError p)
      | Some data \<Rightarrow> if p \<in> read_fails s then Inl (ReadError p) else Inr data)"

definition writeFile :: "string \<Rightarrow> string \<Rightarrow> 'p plugin \<Rightarrow> error option \<times> 'p plugin" where
  "writeFile p data s =
     (if p \<in> write_fails s then (Some (WriteError p), s)
      else (None, s\<lparr>files := (files s)(p \<mapsto> data)\<rparr>))"

subsection \<open>Histories\<close>

text \<open>
  The names that every plain object inherits from \<^verbatim>\<open>Object.prototype\<close> (ECMAScript 5 and
  the accessors of V8), and what \<^verbatim>\<open>this.revisions[path]\<close> evaluates to when it is
  truthy: the history stored under the path or, for one of these names with no entry of
  its own, the inherited member. That member is a function (for \<^verbatim>\<open>__proto__\<close> the
  prototype object); it has no \<^verbatim>\<open>originalContent\<close> and no \<^verbatim>\<open>revisions\<close>.
\<close>

definition Object_prototype_members :: "string list" where
  "Object_prototype_members =
     [''constructor'', ''toString'', ''toLocaleString'', ''valueOf'', ''hasOwnProperty'',
      ''isPrototypeOf'', ''propertyIsEnumerable'', ''__proto__'', ''__defineGetter__'',
      ''__defineSetter__'', ''__lookupGetter__'', ''__lookupSetter__'']"

datatype 'p table_value = History "'p revObj" | Inherited

definition revisions_get :: "'p plugin \<Rightarrow> string \<Rightarrow> 'p table_value option" where
  "revisions_get s p =
     (case revisions_cache s p of
        Some revObj \<Rightarrow> Some (History revObj)
      | None \<Rightarrow> if p \<in> set Object_prototype_members then Some Inherited else None)"

text \<open>
  \<^verbatim>\<open>createEmptyStack\<close> returns \<^verbatim>\<open>{ "revisions": [] }\<close>; its only caller sets
  \<^verbatim>\<open>originalContent\<close> in the next statement, which is the update in \<open>getRevisions\<close>.
\<close>

definition createEmptyStack :: "'p revObj" where
  "createEmptyStack = \<lparr>originalContent = [], revisions = [], lastContent = None\<rparr>"

definition cacheRevision ::
  "string \<Rightarrow> 'p revObj \<Rightarrow> 'p plugin \<Rightarrow> (error + 'p table_value) \<times> 'p plugin" where
  "cacheRevision p revObj s =
     (Inr (History revObj), s\<lparr>revisions_cache := (revisions_cache s)(p \<mapsto> revObj)\<rparr>)"

text \<open>
  \<^verbatim>\<open>getRevisions\<close>. Whatever truthy value \<^verbatim>\<open>this.revisions[filePath]\<close> holds is handed
  to the callback. The \<^verbatim>\<open>mkdir -p\<close> of the parent directory is not modelled:
  directories are not part of \<open>files\<close>, and the code goes on whatever its exit status.
\<close>

definition getRevisions ::
  "'p env \<Rightarrow> string \<Rightarrow> 'p plugin \<Rightarrow> (error + 'p table_value) \<times> 'p plugin" where
  "getRevisions E filePath s =
     (case revisions_get s filePath of
        Some found \<Rightarrow> (Inr found, s)
      | None \<Rightarrow>
          if \<not> truthy (workspaceDir s) then (Inl NoWorkspaceDir, s)
          else
            let absPath = getAbsolutePath E filePath @ ''.'' @ FILE_SUFFIX in
            if path_exists s absPath then
              (case readFile s absPath of
                 Inl err \<Rightarrow> (Inl err, s)
               | Inr data \<Rightarrow>
                   (case json_parse E data of
                      None \<Rightarrow> (Inl (ParseError absPath), s)
                    | Some revObj \<Rightarrow> cacheRevision filePath revObj s))
            else
              (case readFile s (getRealFile E filePath) of
                 Inl err \<Rightarrow> (Inl err, s)
               | Inr data \<Rightarrow>
                   let revObj = createEmptyStack\<lparr>originalContent := data\<rparr> in
                   (case writeFile absPath (json_stringify E revObj) s of
                      (Some err, s') \<Rightarrow> (Inl err, s')
                    | (None, s') \<Rightarrow> cacheRevision filePath revObj s')))"

text \<open>
  The \<^verbatim>\<open>forEach\<close> of \<^verbatim>\<open>getPreviousRevisionContent\<close>:
  \<^verbatim>\<open>content = Diff.patch_apply(revision.patch[0], content)[0]\<close> for each revision in
  order. On an empty \<^verbatim>\<open>patch\<close> array element 0 is \<^verbatim>\<open>undefined\<close>, whose \<^verbatim>\<open>length\<close> the
  library reads: the exception is the result \<open>TypeError\<close>. So is the exception of
  \<^verbatim>\<open>rev.revisions.forEach\<close> when \<^verbatim>\<open>rev\<close> is an inherited member, which has no
  \<^verbatim>\<open>revisions\<close>. After an exception the callback is not called.
\<close>

fun forEach_patch_apply :: "'p env \<Rightarrow> 'p revision list \<Rightarrow> string \<Rightarrow> error + string" where
  "forEach_patch_apply E [] content' = Inr content'"
| "forEach_patch_apply E (revision # rest) content' =
     (case patch revision of
        [] \<Rightarrow> Inl TypeError
      | p # _ \<Rightarrow> forEach_patch_apply E rest (patch_apply E p content'))"

definition getPreviousRevisionContent ::
  "'p env \<Rightarrow> string \<Rightarrow> 'p plugin \<Rightarrow> (error + string) \<times> 'p plugin" where
  "getPreviousRevisionContent E p s =
     (case getRevisions E p s of
        (Inl err, s') \<Rightarrow> (Inl err, s')
      | (Inr Inherited, s') \<Rightarrow> (Inl TypeError, s')
      | (Inr (History revObj), s') \<Rightarrow>
          (case forEach_patch_apply E (revisions revObj) (originalContent revObj) of
             Inl err \<Rightarrow> (Inl err, s')
           | Inr content' \<Rightarrow>
               (Inr (if content' \<noteq> [] then content' else originalContent revObj), s')))"

text \<open>\<^verbatim>\<open>getCurrentDoc(path, message)\<close>; \<^verbatim>\<open>pushPatch\<close> calls it without a message.\<close>

definition getCurrentDoc ::
  "'p env \<Rightarrow> string \<Rightarrow> message option \<Rightarrow> 'p plugin \<Rightarrow> string option" where
  "getCurrentDoc E p msg s =
     (if (case msg of None \<Rightarrow> False | Some m \<Rightarrow> truthy (content m))
      then (case msg of None \<Rightarrow> None | Some m \<Rightarrow> content m)
      else
        (case sessions s (getSessionStylePath E p) of
           Some (WithDocument d) \<Rightarrow> Some (case d of None \<Rightarrow> [] | Some t \<Rightarrow> t)
         | _ \<Rightarrow> None))"

text \<open>\<^verbatim>\<open>getOriginalDoc\<close>; an inherited member has no \<^verbatim>\<open>originalContent\<close>.\<close>

definition getOriginalDoc :: "string \<Rightarrow> 'p plugin \<Rightarrow> string option" where
  "getOriginalDoc p s =
     (case revisions_get s p of
        Some (History revObj) \<Rightarrow> Some (originalContent revObj)
      | _ \<Rightarrow> None)"

subsection \<open>Broadcasting and saving\<close>

definition broadcastRevisions ::
  "'p revObj \<Rightarrow> user option \<Rightarrow> options option \<Rightarrow> 'p plugin \<Rightarrow> 'p plugin" where
  "broadcastRevisions obj usr opts s =
     s\<lparr>sent := sent s @
        [\<lparr>receiver = (case usr of Some u \<Rightarrow> ToUser u | None \<Rightarrow> ToIde),
          subtype = ''getRevisionHistory'',
          body = obj,
          data_originalContent =
            (case opts of
               None \<Rightarrow> None
             | Some opt \<Rightarrow> if getOriginalContent opt then getOriginalDoc (opt_path opt) s else None),
          data_path = map_option opt_path opts\<rparr>]\<rparr>"

text \<open>
  \<^verbatim>\<open>saveToDisk\<close>. Its only caller is \<^verbatim>\<open>pushPatch\<close>, which reaches it after updating the
  history stored under the path; \<^verbatim>\<open>revisions[path]\<close> is read here as that stored entry.
\<close>

definition saveToDisk ::
  "'p env \<Rightarrow> string \<Rightarrow> 'p plugin \<Rightarrow> (error + string \<times> 'p revObj) \<times> 'p plugin" where
  "saveToDisk E p s =
     (case (if p = [] then None else revisions_cache s p) of
        None \<Rightarrow> (Inl (NoPathOrHistory p), s)
      | Some revObj \<Rightarrow>
          let finalPath = getAbsolutePath E p @ ''.'' @ FILE_SUFFIX in
          if \<not> path_exists s finalPath then (Inl (BackupMissing finalPath), s)
          else
            (case writeFile finalPath (json_stringify E revObj) s of
               (Some err, s') \<Rightarrow> (Inl (CouldNotSave finalPath), s')
             | (None, s') \<Rightarrow> (Inr (finalPath, revObj), s')))"

text \<open>
  \<^verbatim>\<open>pushPatch\<close>. \<^verbatim>\<open>revObj\<close> is the object stored in \<^verbatim>\<open>this.revisions[path]\<close>, so the two
  assignments to it change the table entry. When \<^verbatim>\<open>revObj\<close> is an inherited member,
  \<^verbatim>\<open>revObj.revisions.push\<close> throws before anything is broadcast or saved (the assignment
  of \<^verbatim>\<open>lastContent\<close> before it changes that member, which is no part of the state here).
\<close>

definition pushPatch ::
  "'p env \<Rightarrow> string \<Rightarrow> 'p revision \<Rightarrow> string option \<Rightarrow> 'p plugin
     \<Rightarrow> (error + string \<times> 'p revObj) \<times> 'p plugin" where
  "pushPatch E p revision currentDoc s =
     (case getRevisions E p s of
        (Inl err, s') \<Rightarrow> (Inl (CouldNotRetrieve p), s')
      | (Inr Inherited, s') \<Rightarrow> (Inl TypeError, s')
      | (Inr (History revObj), s') \<Rightarrow>
          let doc = (if truthy currentDoc then currentDoc else getCurrentDoc E p None s');
              revObj' = revObj\<lparr>lastContent := doc, revisions := revisions revObj @ [revision]\<rparr>;
              s1 = s'\<lparr>revisions_cache := (revisions_cache s')(p \<mapsto> revObj')\<rparr>;
              s2 = broadcastRevisions revObj' None None s1
          in saveToDisk E p s2)"

definition saveRevisionFromMsg ::
  "'p env \<Rightarrow> user \<Rightarrow> message \<Rightarrow> 'p plugin \<Rightarrow> (error + string \<times> 'p revObj) \<times> 'p plugin" where
  "saveRevisionFromMsg E usr msg s =
     (let p = path msg;
          currentDoc = getCurrentDoc E p (Some msg) s
      in case getPreviousRevisionContent E p s of
           (Inl err, s') \<Rightarrow> (Inl err, s')
         | (Inr previousRev, s') \<Rightarrow>
             (case currentDoc of
                None \<Rightarrow> (Inl (ContentUnavailable p), s')
              | Some doc \<Rightarrow>
                  let revision =
                        \<lparr>ts = now s',
                         silentsave = msg_silentsave msg,
                         restoring = msg_restoring msg,
                         patch = [patch_make E previousRev doc],
                         length_rev = length doc,
                         contributors =
                           (case email usr of
                              None \<Rightarrow> None
                            | Some e \<Rightarrow>
                                if (case msg_contributors msg of None \<Rightarrow> True | Some cs \<Rightarrow> cs = [])
                                   \<and> e \<noteq> []
                                then Some [e] else None),
                         rev_lastContent = None\<rparr>
                  in pushPatch E p revision (Some doc) s'))"

definition saveRevision ::
  "'p env \<Rightarrow> string \<Rightarrow> 'p revision \<Rightarrow> 'p plugin \<Rightarrow> (error + string \<times> 'p revObj) \<times> 'p plugin" where
  "saveRevision E p revision s = pushPatch E p revision (rev_lastContent revision) s"

subsection \<open>The save queue and the purge\<close>

definition enqueueDoc :: "user \<Rightarrow> message \<Rightarrow> 'p plugin \<Rightarrow> 'p plugin" where
  "enqueueDoc usr msg s =
     (let docExists = list_ex (\<lambda>doc. path (snd doc) = path msg) (docQueue s)
      in if \<not> docExists then s\<lparr>docQueue := docQueue s @ [(usr, msg)]\<rparr> else s)"

definition purgeCache :: "'p plugin \<Rightarrow> 'p plugin" where
  "purgeCache s = s\<lparr>revisions_cache := Map.empty\<rparr>"

subsection \<open>A concrete environment\<close>

text \<open>
  An instance of the parameters, used to run the operations on concrete states. A patch
  is a pair of texts: it turns the first into the second and leaves any other text as
  it is. Histories are written to files field by field, numbers in unary, strings and
  lists behind their length.
\<close>

definition sample_patch_make :: "string \<Rightarrow> string \<Rightarrow> string \<times> string" where
  "sample_patch_make a b = (a, b)"

definition sample_patch_apply :: "string \<times> string \<Rightarrow> string \<Rightarrow> string" where
  "sample_patch_apply p t = (if t = fst p then snd p else t)"

definition enc_nat :: "nat \<Rightarrow> string" where
  "enc_nat n = replicate n (CHR ''i'') @ '';''"

definition enc_str :: "string \<Rightarrow> string" where
  "enc_str t = enc_nat (length t) @ t"

definition enc_list :: "('a \<Rightarrow> string) \<Rightarrow> 'a list \<Rightarrow> string" where
  "enc_list f xs = enc_nat (length xs) @ concat (map f xs)"

fun enc_opt :: "('a \<Rightarrow> string) \<Rightarrow> 'a option \<Rightarrow> string" where
  "enc_opt f None = ''u''"
| "enc_opt f (Some x) = ''s'' @ f x"

definition enc_bool :: "bool \<Rightarrow> string" where
  "enc_bool b = (if b then ''t'' else ''f'')"

definition enc_patch :: "string \<times> string \<Rightarrow> string" where
  "enc_patch p = enc_str (fst p) @ enc_str (snd p)"

definition enc_revision :: "(string \<times> string) revision \<Rightarrow> string" where
  "enc_revision r =
     enc_nat (ts r) @ enc_opt enc_bool (silentsave r) @ enc_opt enc_bool (restoring r)
     @ enc_list enc_patch (patch r) @ enc_nat (length_rev r)
     @ enc_opt (enc_list enc_str) (contributors r) @ enc_opt enc_str (rev_lastContent r)"

definition sample_stringify :: "(string \<times> string) revObj \<Rightarrow> string" where
  "sample_stringify h =
     enc_str (originalContent h) @ enc_list enc_revision (revisions h)
     @ enc_opt enc_str (lastContent h)"

definition dec_nat :: "string \<Rightarrow> (nat \<times> string) option" where
  "dec_nat t =
     (let n = length (takeWhile (\<lambda>c. c = CHR ''i'') t)
      in case drop n t of
           [] \<Rightarrow> None
         | c # r \<Rightarrow> if c = CHR '';'' then Some (n, r) else None)"

definition dec_str :: "string \<Rightarrow> (string \<times> string) option" where
  "dec_str t = do {
     (n, r) \<leftarrow> dec_nat t;
     if length r < n then None else Some (take n r, drop n r) }"

primrec dec_times :: "(string \<Rightarrow> ('a \<times> string) option) \<Rightarrow> nat \<Rightarrow> string \<Rightarrow> ('a list \<times> string) option" where
  "dec_times d 0 t = Some ([], t)"
| "dec_times d (Suc n) t = do {
     (x, r) \<leftarrow> d t;
     (xs, r') \<leftarrow> dec_times d n r;
     Some (x # xs, r') }"

definition dec_list :: "(string \<Rightarrow> ('a \<times> string) option) \<Rightarrow> string \<Rightarrow> ('a list \<times> string) option" where
  "dec_list d t = do { (n, r) \<leftarrow> dec_nat t; dec_times d n r }"

definition dec_opt :: "(string \<Rightarrow> ('a \<times> string) option) \<Rightarrow> string \<Rightarrow> ('a option \<times> string) option" where
  "dec_opt d t =
     (case t of
        [] \<Rightarrow> None
      | c # r \<Rightarrow>
          if c = CHR ''u'' then Some (None, r)
          else if c = CHR ''s'' then do { (x, r') \<leftarrow> d r; Some (Some x, r') }
          else None)"

definition dec_bool :: "string \<Rightarrow> (bool \<times> string) option" where
  "dec_bool t =
     (case t of
        [] \<Rightarrow> None
      | c # r \<Rightarrow>
          if c = CHR ''t'' then Some (True, r)
          else if c = CHR ''f'' then Some (False, r)
          else None)"

definition dec_patch :: "string \<Rightarrow> ((string \<times> string) \<times> string) option" where
  "dec_patch t = do { (a, r) \<leftarrow> dec_str t; (b, r') \<leftarrow> dec_str r; Some ((a, b), r') }"

definition dec_revision :: "string \<Rightarrow> ((string \<times> string) revision \<times> string) option" where
  "dec_revision t = do {
     (t1, r1) \<leftarrow> dec_nat t;
     (ss, r2) \<leftarrow> dec_opt dec_bool r1;
     (rs, r3) \<leftarrow> dec_opt dec_bool r2;
     (ps, r4) \<leftarrow> dec_list dec_patch r3;
     (len, r5) \<leftarrow> dec_nat r4;
     (cs, r6) \<leftarrow> dec_opt (dec_list dec_str) r5;
     (lc, r7) \<leftarrow> dec_opt dec_str r6;
     Some (\<lparr>ts = t1, silentsave = ss, restoring = rs, patch = ps, length_rev = len,
            contributors = cs, rev_lastContent = lc\<rparr>, r7) }"

definition sample_parse :: "string \<Rightarrow> (string \<times> string) revObj option" where
  "sample_parse t = do {
     (orig, r1) \<leftarrow> dec_str t;
     (revs, r2) \<leftarrow> dec_list dec_revision r1;
     (lc, r3) \<leftarrow> dec_opt dec_str r2;
     if r3 = [] then Some \<lparr>originalContent = orig, revisions = revs, lastContent = lc\<rparr>
     else None }"

definition sample_env :: "(string \<times> string) env" where
  "sample_env =
     \<lparr>patch_make = sample_patch_make,
      patch_apply = sample_patch_apply,
      getAbsolutePath = (\<lambda>p. ''/ws/.c9revisions/'' @ p),
      getRealFile = (\<lambda>p. ''/ws/'' @ p),
      getSessionStylePath = (\<lambda>p. ''/workspace/'' @ p),
      json_stringify = sample_stringify,
      json_parse = sample_parse\<rparr>"

text \<open>A workspace holding the one document \<^verbatim>\<open>a.txt\<close> with text \<^verbatim>\<open>abc\<close>, nothing cached.\<close>

definition sample_plugin :: "(string \<times> string) plugin" where
  "sample_plugin =
     \<lparr>workspaceDir = Some ''/ws'',
      revisions_cache = Map.empty,
      docQueue = [],
      files = [''/ws/a.txt'' \<mapsto> ''abc''],
      read_fails = {},
      write_fails = {},
      sessions = Map.empty,
      sent = [],
      now = 7\<rparr>"

definition sample_user :: user where
  "sample_user = \<lparr>email = Some ''dev@example.org''\<rparr>"

definition sample_message :: "string \<Rightarrow> string option \<Rightarrow> message" where
  "sample_message p c =
     \<lparr>path = p, content = c, msg_silentsave = None, msg_restoring = None,
      msg_contributors = None\<rparr>"

definition sample_revision :: "string \<Rightarrow> string \<Rightarrow> string option \<Rightarrow> (string \<times> string) revision" where
  "sample_revision a b lc =
     \<lparr>ts = 5, silentsave = None, restoring = None, patch = [(a, b)], length_rev = length b,
      contributors = None, rev_lastContent = lc\<rparr>"

text \<open>The same workspace with a history for \<^verbatim>\<open>a.txt\<close> in the table and in its file.\<close>

definition with_history :: "(string \<times> string) revObj \<Rightarrow> (string \<times> string) plugin" where
  "with_history h =
     sample_plugin
       \<lparr>revisions_cache := [''a.txt'' \<mapsto> h],
        files := [''/ws/a.txt'' \<mapsto> ''abc'',
                  ''/ws/.c9revisions/a.txt.c9save'' \<mapsto> sample_stringify h]\<rparr>"

subsection \<open>Sequential application, as the specification words it\<close>

text \<open>
  The specification's reconstruction: apply the patches \<open>p1 .. pn\<close> of the records in
  order, starting from the original text, each result feeding the next application.
\<close>

fun apply_in_order :: "'p env \<Rightarrow> 'p list \<Rightarrow> string \<Rightarrow> string" where
  "apply_in_order E [] t = t"
| "apply_in_order E (p # ps) t = apply_in_order E ps (patch_apply E p t)"

subsection \<open>Concrete histories\<close>

text \<open>
  \<^verbatim>\<open>abc\<close> edited to \<^verbatim>\<open>abcd\<close> and then to \<^verbatim>\<open>abcde\<close>; \<^verbatim>\<open>abc\<close> emptied by one save; and a
  history as \<^verbatim>\<open>saveRevision\<close> leaves it when the client's revision carries a
  \<^verbatim>\<open>lastContent\<close> that its patch does not produce.
\<close>

definition grown_history :: "(string \<times> string) revObj" where
  "grown_history =
     \<lparr>originalContent = ''abc'',
      revisions = [sample_revision ''abc'' ''abcd'' None, sample_revision ''abcd'' ''abcde'' None],
      lastContent = Some ''abcde''\<rparr>"

definition emptied_history :: "(string \<times> string) revObj" where
  "emptied_history =
     \<lparr>originalContent = ''abc'', revisions = [sample_revision ''abc'' [] None],
      lastContent = Some []\<rparr>"

definition stale_history :: "(string \<times> string) revObj" where
  "stale_history =
     \<lparr>originalContent = ''abc'',
      revisions = [sample_revision ''abc'' ''abcd'' (Some ''zzz'')],
      lastContent = Some ''zzz''\<rparr>"

definition fresh_history :: "(string \<times> string) revObj" where
  "fresh_history = \<lparr>originalContent = ''abc'', revisions = [], lastContent = None\<rparr>"

subsection \<open>Concrete states\<close>

text \<open>
  The workspace with a fresh history for \<^verbatim>\<open>a.txt\<close> whose revision file cannot be
  written; the workspace without its directory configured; and the workspace with a
  Concorde session on \<^verbatim>\<open>a.txt\<close> whose document reads \<^verbatim>\<open>xyz\<close>.
\<close>

definition unwritable :: "(string \<times> string) plugin" where
  "unwritable = (with_history fresh_history)\<lparr>write_fails := {''/ws/.c9revisions/a.txt.c9save''}\<rparr>"

definition unconfigured :: "(string \<times> string) plugin" where
  "unconfigured = sample_plugin\<lparr>workspaceDir := None\<rparr>"

definition with_session :: "(string \<times> string) plugin" where
  "with_session =
     (with_history fresh_history)
       \<lparr>sessions := [''/workspace/a.txt'' \<mapsto> WithDocument (Some ''xyz'')]\<rparr>"

text \<open>The workspace with a document named \<^verbatim>\<open>constructor\<close> that reads \<^verbatim>\<open>X\<close>.\<close>

definition with_constructor :: "(string \<times> string) plugin" where
  "with_constructor =
     sample_plugin\<lparr>files := [''/ws/a.txt'' \<mapsto> ''abc'', ''/ws/constructor'' \<mapsto> ''X'']\<rparr>"

section \<open>Properties\<close>

subsection \<open>Facts about the operations\<close>

lemma sample_env_simps:
  "patch_apply sample_env = sample_patch_apply"
  "patch_make sample_env = sample_patch_make"
  "getAbsolutePath sample_env p = ''/ws/.c9revisions/'' @ p"
  "getRealFile sample_env p = ''/ws/'' @ p"
  "getSessionStylePath sample_env p = ''/workspace/'' @ p"
  "json_stringify sample_env = sample_stringify"
  "json_parse sample_env = sample_parse"
  by (simp_all add: sample_env_def)

lemma with_history_simps:
  "revisions_cache (with_history h) = [''a.txt'' \<mapsto> h]"
  "workspaceDir (with_history h) = Some ''/ws''"
  "sent (with_history h) = []"
  "sessions (with_history h) = Map.empty"
  "docQueue (with_history h) = []"
  "read_fails (with_history h) = {}"
  "write_fails (with_history h) = {}"
  "now (with_history h) = 7"
  "files (with_history h) =
     [''/ws/a.txt'' \<mapsto> ''abc'', ''/ws/.c9revisions/a.txt.c9save'' \<mapsto> sample_stringify h]"
  by (simp_all add: with_history_def sample_plugin_def)

lemma getRevisions_hit:
  "revisions_cache s p = Some h \<Longrightarrow> getRevisions E p s = (Inr (History h), s)"
  by (simp add: getRevisions_def revisions_get_def)

lemma getRevisions_Inl_state:
  "getRevisions E p s = (Inl e, s') \<Longrightarrow> s' = s"
  by (auto simp: getRevisions_def revisions_get_def cacheRevision_def writeFile_def Let_def
           split: option.splits if_splits sum.splits prod.splits)

lemma getRevisions_Inr_cached:
  "getRevisions E p s = (Inr (History h), s') \<Longrightarrow> revisions_cache s' p = Some h"
  by (auto simp: getRevisions_def revisions_get_def cacheRevision_def writeFile_def Let_def
           split: option.splits if_splits sum.splits prod.splits)

lemma getRevisions_frame:
  "getRevisions E p s = (r, s') \<Longrightarrow>
     sent s' = sent s \<and> sessions s' = sessions s \<and> docQueue s' = docQueue s
     \<and> now s' = now s \<and> workspaceDir s' = workspaceDir s
     \<and> read_fails s' = read_fails s \<and> write_fails s' = write_fails s"
  by (auto simp: getRevisions_def revisions_get_def cacheRevision_def writeFile_def Let_def
           split: option.splits if_splits sum.splits prod.splits)

lemma getCurrentDoc_frame:
  "sessions s' = sessions s \<Longrightarrow> getCurrentDoc E p m s' = getCurrentDoc E p m s"
  by (simp add: getCurrentDoc_def)

text \<open>
  At a path that names a member of \<^verbatim>\<open>Object.prototype\<close> and has no entry of its own, the
  lookup yields the inherited member, and no operation stores an entry: the table never
  holds a history for such a path.
\<close>

lemma prototype_name_never_cached:
  assumes "p \<in> set Object_prototype_members" and "revisions_cache s p = None"
  shows "getRevisions E p s = (Inr Inherited, s)"
    and "pushPatch E p r cd s = (Inl TypeError, s)"
    and "getPreviousRevisionContent E p s = (Inl TypeError, s)"
proof -
  show g: "getRevisions E p s = (Inr Inherited, s)"
    using assms by (simp add: getRevisions_def revisions_get_def)
  show "pushPatch E p r cd s = (Inl TypeError, s)"
    using g by (simp add: pushPatch_def)
  show "getPreviousRevisionContent E p s = (Inl TypeError, s)"
    using g by (simp add: getPreviousRevisionContent_def)
qed

text \<open>
  When no record has an empty \<^verbatim>\<open>patch\<close> array, the loop is the sequential application
  of the elements 0 of these arrays.
\<close>

lemma forEach_patch_apply_in_order:
  "\<forall>r \<in> set rs. patch r \<noteq> [] \<Longrightarrow>
     forEach_patch_apply E rs t = Inr (apply_in_order E (map (\<lambda>r. hd (patch r)) rs) t)"
  by (induction rs arbitrary: t) (auto split: list.splits)

lemma getPreviousRevisionContent_of:
  "getRevisions E p s = (Inr (History h), s') \<Longrightarrow>
     getPreviousRevisionContent E p s =
       (case forEach_patch_apply E (revisions h) (originalContent h) of
          Inl err \<Rightarrow> (Inl err, s')
        | Inr c \<Rightarrow> (Inr (if c \<noteq> [] then c else originalContent h), s'))"
  by (simp add: getPreviousRevisionContent_def)

lemma find_app:
  "find P (xs @ ys) = (case find P xs of None \<Rightarrow> find P ys | Some x \<Rightarrow> Some x)"
  by (induction xs) simp_all

text \<open>
  Enqueueing the requests \<open>rs\<close> one after the other on an empty queue: every entry is
  one of the requests, and for each request the queue holds exactly one entry with its
  path, the first request of \<open>rs\<close> with that path.
\<close>

lemma enqueue_all_inv:
  assumes "docQueue s0 = []"
  defines "q rs \<equiv> docQueue (foldl (\<lambda>s r. enqueueDoc (fst r) (snd r) s) s0 rs)"
  shows "set (q rs) \<subseteq> set rs \<and>
         (\<forall>r \<in> set rs. map Some (filter (\<lambda>e. path (snd e) = path (snd r)) (q rs))
                          = [find (\<lambda>e. path (snd e) = path (snd r)) rs])"
proof (induction rs rule: rev_induct)
  case Nil
  then show ?case using assms by simp
next
  case (snoc r rs)
  let ?same = "\<lambda>x e. path (snd e) = path (snd x)"
  have IH1: "set (q rs) \<subseteq> set rs"
    and IH2: "\<And>x. x \<in> set rs \<Longrightarrow> map Some (filter (?same x) (q rs)) = [find (?same x) rs]"
    using snoc.IH by auto
  have found: "\<And>x. x \<in> set rs \<Longrightarrow> find (?same x) (rs @ [r]) = find (?same x) rs"
  proof -
    fix x assume "x \<in> set rs"
    then have "\<exists>y. y \<in> set rs \<and> ?same x y" by blast
    then have "find (?same x) rs \<noteq> None" unfolding find_None_iff by blast
    then show "find (?same x) (rs @ [r]) = find (?same x) rs"
      unfolding find_app by (cases "find (?same x) rs") simp_all
  qed
  show ?case
  proof (cases "list_ex (\<lambda>doc. path (snd doc) = path (snd r)) (q rs)")
    case True
    then have qeq: "q (rs @ [r]) = q rs"
      by (simp add: q_def enqueueDoc_def)
    from True obtain e where e: "e \<in> set (q rs)" "path (snd e) = path (snd r)"
      by (auto simp: list_ex_iff)
    with IH1 have ers: "e \<in> set rs" by auto
    have "map Some (filter (?same r) (q rs)) = [find (?same r) rs]"
      using IH2 [OF ers] unfolding e(2) .
    moreover have "find (?same r) (rs @ [r]) = find (?same r) rs"
      using found [OF ers] unfolding e(2) .
    ultimately show ?thesis using qeq IH1 IH2 found by auto
  next
    case False
    then have qeq: "q (rs @ [r]) = q rs @ [r]"
      by (simp add: q_def enqueueDoc_def)
    have none_q: "filter (?same r) (q rs) = []"
      using False by (auto simp: list_ex_iff filter_empty_conv)
    have none_rs: "\<And>x. x \<in> set rs \<Longrightarrow> path (snd x) \<noteq> path (snd r)"
    proof
      fix x assume x: "x \<in> set rs" "path (snd x) = path (snd r)"
      from IH2 [OF x(1)] have "map Some (filter (?same r) (q rs)) = [find (?same r) rs]"
        unfolding x(2) .
      with none_q show False by simp
    qed
    then have "find (?same r) rs = None" unfolding find_None_iff by blast
    then have r_ok: "map Some (filter (?same r) (q (rs @ [r]))) = [find (?same r) (rs @ [r])]"
      using qeq none_q by (simp add: find_app)
    have old_ok: "\<And>x. x \<in> set rs \<Longrightarrow>
            map Some (filter (?same x) (q (rs @ [r]))) = [find (?same x) (rs @ [r])]"
    proof -
      fix x assume x: "x \<in> set rs"
      have "path (snd r) \<noteq> path (snd x)" using none_rs [OF x] by simp
      then have "filter (?same x) (q rs @ [r]) = filter (?same x) (q rs)" by simp
      then show "map Some (filter (?same x) (q (rs @ [r]))) = [find (?same x) (rs @ [r])]"
        using qeq IH2 [OF x] found [OF x] by simp
    qed
    have "set (q (rs @ [r])) \<subseteq> set (rs @ [r])" using qeq IH1 by auto
    moreover have "\<forall>x \<in> set (rs @ [r]).
        map Some (filter (?same x) (q (rs @ [r]))) = [find (?same x) (rs @ [r])]"
      using old_ok r_ok by auto
    ultimately show ?thesis by blast
  qed
qed

text \<open>The loop reads only the \<^verbatim>\<open>patch\<close> member of each record.\<close>

lemma forEach_patch_apply_cong:
  "map patch rs = map patch rs' \<Longrightarrow> forEach_patch_apply E rs t = forEach_patch_apply E rs' t"
proof (induction rs arbitrary: rs' t)
  case Nil
  then show ?case by simp
next
  case (Cons r rs)
  then obtain r' rest where "rs' = r' # rest" "patch r' = patch r" "map patch rs = map patch rest"
    by (cases rs') auto
  with Cons.IH show ?case by (simp split: list.splits)
qed

text \<open>Saving: what \<^verbatim>\<open>saveToDisk\<close>, \<^verbatim>\<open>pushPatch\<close> and \<^verbatim>\<open>saveRevisionFromMsg\<close> do step by step.\<close>

lemma saveToDisk_frame:
  "sent (snd (saveToDisk E p s)) = sent s
   \<and> revisions_cache (snd (saveToDisk E p s)) = revisions_cache s
   \<and> sessions (snd (saveToDisk E p s)) = sessions s"
  by (simp add: saveToDisk_def writeFile_def Let_def split: option.splits)

lemma saveToDisk_Inr:
  "saveToDisk E p s = (Inr (fp, h), s') \<Longrightarrow>
     revisions_cache s p = Some h \<and> revisions_cache s' = revisions_cache s
     \<and> files s' fp = Some (json_stringify E h)"
  by (auto simp: saveToDisk_def writeFile_def Let_def split: option.splits if_splits)

lemma pushPatch_of:
  "getRevisions E p s = (Inr (History h), s') \<Longrightarrow>
     pushPatch E p r cd s =
       saveToDisk E p
         (broadcastRevisions
            (h\<lparr>lastContent := (if truthy cd then cd else getCurrentDoc E p None s),
               revisions := revisions h @ [r]\<rparr>) None None
            (s'\<lparr>revisions_cache := (revisions_cache s')(p \<mapsto>
                 h\<lparr>lastContent := (if truthy cd then cd else getCurrentDoc E p None s),
                    revisions := revisions h @ [r]\<rparr>)\<rparr>))"
  using getRevisions_frame [of E p s "Inr (History h)" s'] getCurrentDoc_frame [of s' s E p None]
  by (simp add: pushPatch_def Let_def)

lemma pushPatch_Inl:
  "getRevisions E p s = (Inl e, s') \<Longrightarrow> pushPatch E p r cd s = (Inl (CouldNotRetrieve p), s)"
  using getRevisions_Inl_state [of E p s e s'] by (simp add: pushPatch_def)

lemma pushPatch_sent:
  "getRevisions E p s = (Inr (History h), s') \<Longrightarrow>
     sent (snd (pushPatch E p r cd s)) =
       sent s @ [\<lparr>receiver = ToIde, subtype = ''getRevisionHistory'',
                  body = h\<lparr>lastContent := (if truthy cd then cd else getCurrentDoc E p None s),
                           revisions := revisions h @ [r]\<rparr>,
                  data_originalContent = None, data_path = None\<rparr>]
     \<and> revisions_cache (snd (pushPatch E p r cd s)) p =
         Some (h\<lparr>lastContent := (if truthy cd then cd else getCurrentDoc E p None s),
                 revisions := revisions h @ [r]\<rparr>)"
  using getRevisions_frame [of E p s "Inr (History h)" s']
  by (simp add: pushPatch_of saveToDisk_frame broadcastRevisions_def)

lemma pushPatch_Inr:
  assumes "getRevisions E p s = (Inr (History h), s1)"
    and "pushPatch E p r cd s = (Inr (fp, h'), s2)"
  shows "h' = h\<lparr>lastContent := (if truthy cd then cd else getCurrentDoc E p None s),
                 revisions := revisions h @ [r]\<rparr>
         \<and> revisions_cache s2 p = Some h' \<and> files s2 fp = Some (json_stringify E h')"
proof -
  let ?h = "h\<lparr>lastContent := (if truthy cd then cd else getCurrentDoc E p None s),
              revisions := revisions h @ [r]\<rparr>"
  let ?s = "broadcastRevisions ?h None None (s1\<lparr>revisions_cache := (revisions_cache s1)(p \<mapsto> ?h)\<rparr>)"
  have "saveToDisk E p ?s = (Inr (fp, h'), s2)"
    using assms pushPatch_of [OF assms(1), of r cd] by simp
  from saveToDisk_Inr [OF this] show ?thesis
    by (simp add: broadcastRevisions_def)
qed

lemma getCurrentDoc_empty:
  "getCurrentDoc E p (Some m) s = Some [] \<Longrightarrow> getCurrentDoc E p None s = Some []"
  by (auto simp: getCurrentDoc_def split: if_splits option.splits docSession.splits)

lemma saveRevisionFromMsg_of:
  assumes "getPreviousRevisionContent E (path m) s = (Inr c, s1)"
    and "getCurrentDoc E (path m) (Some m) s = Some doc"
  shows "\<exists>h. getRevisions E (path m) s = (Inr (History h), s1)
           \<and> getRevisions E (path m) s1 = (Inr (History h), s1)
           \<and> saveRevisionFromMsg E u m s =
               pushPatch E (path m)
                 \<lparr>ts = now s1, silentsave = msg_silentsave m, restoring = msg_restoring m,
                  patch = [patch_make E c doc], length_rev = length doc,
                  contributors =
                    (case email u of
                       None \<Rightarrow> None
                     | Some e \<Rightarrow>
                         if (case msg_contributors m of None \<Rightarrow> True | Some cs \<Rightarrow> cs = [])
                            \<and> e \<noteq> []
                         then Some [e] else None),
                  rev_lastContent = None\<rparr>
                 (Some doc) s1"
proof -
  obtain h where g: "getRevisions E (path m) s = (Inr (History h), s1)"
    using assms(1)
    by (auto simp: getPreviousRevisionContent_def
             split: prod.splits sum.splits table_value.splits)
  have "getRevisions E (path m) s1 = (Inr (History h), s1)"
    using getRevisions_hit [OF getRevisions_Inr_cached [OF g]] .
  with g assms show ?thesis
    by (simp add: saveRevisionFromMsg_def Let_def)
qed

lemma saveRevisionFromMsg_push:
  assumes "getPreviousRevisionContent E (path m) s = (Inr c, s1)"
    and "getCurrentDoc E (path m) (Some m) s = Some doc"
  shows "\<exists>h r. getRevisions E (path m) s = (Inr (History h), s1)
           \<and> getRevisions E (path m) s1 = (Inr (History h), s1)
           \<and> saveRevisionFromMsg E u m s = pushPatch E (path m) r (Some doc) s1"
  using saveRevisionFromMsg_of [OF assms, of u] by blast

lemma saveRevisionFromMsg_fails:
  "getPreviousRevisionContent E (path m) s = (Inl e, s1) \<Longrightarrow>
     saveRevisionFromMsg E u m s = (Inl e, s1) \<and> sent s1 = sent s"
  "getPreviousRevisionContent E (path m) s = (Inr c, s1) \<Longrightarrow>
     getCurrentDoc E (path m) (Some m) s = None \<Longrightarrow>
     saveRevisionFromMsg E u m s = (Inl (ContentUnavailable (path m)), s1) \<and> sent s1 = sent s"
proof -
  have fr: "\<And>r s1. getPreviousRevisionContent E (path m) s = (r, s1) \<Longrightarrow> sent s1 = sent s"
    using getRevisions_frame [of E "path m" s]
    by (auto simp: getPreviousRevisionContent_def
             split: prod.splits sum.splits table_value.splits)
  show "getPreviousRevisionContent E (path m) s = (Inl e, s1) \<Longrightarrow>
     saveRevisionFromMsg E u m s = (Inl e, s1) \<and> sent s1 = sent s"
    using fr by (simp add: saveRevisionFromMsg_def Let_def)
  show "getPreviousRevisionContent E (path m) s = (Inr c, s1) \<Longrightarrow>
     getCurrentDoc E (path m) (Some m) s = None \<Longrightarrow>
     saveRevisionFromMsg E u m s = (Inl (ContentUnavailable (path m)), s1) \<and> sent s1 = sent s"
    using fr by (simp add: saveRevisionFromMsg_def Let_def)
qed

text \<open>The definitions unfolded to run an operation on a concrete state.\<close>

lemmas run_defs =
  saveRevisionFromMsg_def saveRevision_def pushPatch_def saveToDisk_def broadcastRevisions_def
  getPreviousRevisionContent_def getRevisions_def revisions_get_def
  Object_prototype_members_def getCurrentDoc_def writeFile_def readFile_def
  path_exists_def cacheRevision_def createEmptyStack_def Let_def FILE_SUFFIX_def
  sample_env_simps sample_patch_apply_def sample_patch_make_def sample_message_def
  sample_user_def sample_revision_def

subsection \<open>Reconstruction\<close>

text \<open>
  C1, amended. For a history with original text \<open>O\<close> and records \<open>r1 .. rn\<close>, each
  carrying a patch (element 0 of its \<^verbatim>\<open>patch\<close> array), \<^verbatim>\<open>getPreviousRevisionContent\<close>
  returns the text obtained by applying these patches in order starting from \<open>O\<close>, each
  result feeding the next application, unless that text is empty: then it returns \<open>O\<close>.
\<close>

theorem reconstruction_sequential_unless_empty:
  assumes "getRevisions E p s = (Inr (History h), s')"
    and "\<forall>r \<in> set (revisions h). patch r \<noteq> []"
  shows "getPreviousRevisionContent E p s =
           (Inr (if apply_in_order E (map (\<lambda>r. hd (patch r)) (revisions h)) (originalContent h)
                    = []
                 then originalContent h
                 else apply_in_order E (map (\<lambda>r. hd (patch r)) (revisions h))
                        (originalContent h)), s')"
  using assms
  by (simp add: getPreviousRevisionContent_of forEach_patch_apply_in_order)

theorem reconstruction_sequential_unless_empty_witness:
  "getRevisions sample_env ''a.txt'' (with_history grown_history)
     = (Inr (History grown_history), with_history grown_history)
   \<and> map patch (revisions grown_history) = [[(''abc'', ''abcd'')], [(''abcd'', ''abcde'')]]
   \<and> getPreviousRevisionContent sample_env ''a.txt'' (with_history grown_history)
       = (Inr ''abcde'', with_history grown_history)"
proof -
  have g: "getRevisions sample_env ''a.txt'' (with_history grown_history)
             = (Inr (History grown_history), with_history grown_history)"
    by (simp add: getRevisions_def revisions_get_def with_history_simps)
  have m: "\<forall>r \<in> set (revisions grown_history). patch r \<noteq> []"
    by (simp add: grown_history_def sample_revision_def)
  show ?thesis
    using g m reconstruction_sequential_unless_empty [OF g m]
    by (simp add: grown_history_def sample_revision_def sample_env_simps sample_patch_apply_def)
qed

text \<open>
  The claim as it stands fails on a document that a save has emptied: the one patch
  applied to the original text gives the empty text, and the code returns the original
  text.
\<close>

theorem reconstruction_sequential_counterexample:
  "getRevisions sample_env ''a.txt'' (with_history emptied_history)
     = (Inr (History emptied_history), with_history emptied_history)
   \<and> originalContent emptied_history = ''abc''
   \<and> revisions emptied_history = [sample_revision ''abc'' [] None]
   \<and> patch (sample_revision ''abc'' [] None) = [(''abc'', [])]
   \<and> apply_in_order sample_env [(''abc'', [])] ''abc'' = []
   \<and> fst (getPreviousRevisionContent sample_env ''a.txt'' (with_history emptied_history))
       = Inr ''abc''"
  by (simp add: getPreviousRevisionContent_def getRevisions_def revisions_get_def with_history_simps
        emptied_history_def sample_revision_def sample_env_simps sample_patch_apply_def)

text \<open>
  C9. When applying all patches to the original text gives the empty text and the
  original text is not empty, \<^verbatim>\<open>getPreviousRevisionContent\<close> returns the original text and
  not the empty text: the fallback of \<^verbatim>\<open>content || rev.originalContent\<close> is taken for
  every falsy result, also with records present.
\<close>

theorem empty_reconstruction_falls_back:
  assumes "getRevisions E p s = (Inr (History h), s')"
    and "\<forall>r \<in> set (revisions h). patch r \<noteq> []"
    and "apply_in_order E (map (\<lambda>r. hd (patch r)) (revisions h)) (originalContent h) = []"
    and "originalContent h \<noteq> []"
  shows "getPreviousRevisionContent E p s = (Inr (originalContent h), s')
         \<and> fst (getPreviousRevisionContent E p s) \<noteq> Inr []"
  using assms
  by (simp add: getPreviousRevisionContent_of forEach_patch_apply_in_order)

theorem empty_reconstruction_falls_back_witness:
  "getRevisions sample_env ''a.txt'' (with_history emptied_history)
     = (Inr (History emptied_history), with_history emptied_history)
   \<and> map patch (revisions emptied_history) = [[(''abc'', [])]]
   \<and> apply_in_order sample_env [(''abc'', [])] (originalContent emptied_history) = []
   \<and> originalContent emptied_history \<noteq> []
   \<and> revisions emptied_history \<noteq> []
   \<and> getPreviousRevisionContent sample_env ''a.txt'' (with_history emptied_history)
       = (Inr ''abc'', with_history emptied_history)"
proof -
  have g: "getRevisions sample_env ''a.txt'' (with_history emptied_history)
             = (Inr (History emptied_history), with_history emptied_history)"
    by (simp add: getRevisions_def revisions_get_def with_history_simps)
  have m: "\<forall>r \<in> set (revisions emptied_history). patch r \<noteq> []"
    by (simp add: emptied_history_def sample_revision_def)
  have a: "apply_in_order sample_env (map (\<lambda>r. hd (patch r)) (revisions emptied_history))
             (originalContent emptied_history) = []"
    by (simp add: emptied_history_def sample_revision_def sample_env_simps
          sample_patch_apply_def)
  have n: "originalContent emptied_history \<noteq> []"
    by (simp add: emptied_history_def)
  show ?thesis
    using g m a n empty_reconstruction_falls_back [OF g m a n]
    by (simp add: emptied_history_def sample_revision_def)
qed

text \<open>
  C2, amended. \<^verbatim>\<open>getPreviousRevisionContent\<close> never reads \<^verbatim>\<open>lastContent\<close>: for a cached
  history the result is the same whatever \<^verbatim>\<open>lastContent\<close> holds, present or not. The
  content is always recomputed by applying every record's patch to \<^verbatim>\<open>originalContent\<close>
  (with \<^verbatim>\<open>originalContent\<close> returned in place of an empty result), and with no records
  it is \<^verbatim>\<open>originalContent\<close>.
\<close>

theorem reconstruction_ignores_lastContent:
  assumes "revisions_cache s p = Some h"
  shows "fst (getPreviousRevisionContent E p
                (s\<lparr>revisions_cache := (revisions_cache s)(p \<mapsto> h\<lparr>lastContent := lc\<rparr>)\<rparr>))
           = fst (getPreviousRevisionContent E p s)
         \<and> (revisions h = [] \<longrightarrow>
               fst (getPreviousRevisionContent E p s) = Inr (originalContent h))
         \<and> ((\<forall>r \<in> set (revisions h). patch r \<noteq> []) \<longrightarrow>
               fst (getPreviousRevisionContent E p s) =
                 Inr (if apply_in_order E (map (\<lambda>r. hd (patch r)) (revisions h))
                           (originalContent h) = []
                      then originalContent h
                      else apply_in_order E (map (\<lambda>r. hd (patch r)) (revisions h))
                             (originalContent h)))"
proof -
  have "fst (getPreviousRevisionContent E p
                (s\<lparr>revisions_cache := (revisions_cache s)(p \<mapsto> h\<lparr>lastContent := lc\<rparr>)\<rparr>))
           = fst (getPreviousRevisionContent E p s)"
    using assms
    by (simp add: getPreviousRevisionContent_def getRevisions_def revisions_get_def split: sum.splits)
  moreover have "revisions h = [] \<longrightarrow>
               fst (getPreviousRevisionContent E p s) = Inr (originalContent h)"
    using assms by (simp add: getPreviousRevisionContent_def getRevisions_def revisions_get_def)
  moreover have "(\<forall>r \<in> set (revisions h). patch r \<noteq> []) \<longrightarrow>
               fst (getPreviousRevisionContent E p s) =
                 Inr (if apply_in_order E (map (\<lambda>r. hd (patch r)) (revisions h))
                           (originalContent h) = []
                      then originalContent h
                      else apply_in_order E (map (\<lambda>r. hd (patch r)) (revisions h))
                             (originalContent h))"
    using getRevisions_hit [OF assms, of E]
    by (simp add: getPreviousRevisionContent_of forEach_patch_apply_in_order)
  ultimately show ?thesis by blast
qed

theorem reconstruction_ignores_lastContent_witness:
  "revisions_cache (with_history fresh_history) ''a.txt'' = Some fresh_history
   \<and> revisions fresh_history = []
   \<and> fst (getPreviousRevisionContent sample_env ''a.txt''
            ((with_history fresh_history)
               \<lparr>revisions_cache := (revisions_cache (with_history fresh_history))
                  (''a.txt'' \<mapsto> fresh_history\<lparr>lastContent := Some ''zzz''\<rparr>)\<rparr>))
       = Inr ''abc''
   \<and> revisions_cache (with_history stale_history) ''a.txt'' = Some stale_history
   \<and> map patch (revisions stale_history) = [[(''abc'', ''abcd'')]]
   \<and> fst (getPreviousRevisionContent sample_env ''a.txt''
            ((with_history stale_history)
               \<lparr>revisions_cache := (revisions_cache (with_history stale_history))
                  (''a.txt'' \<mapsto> stale_history\<lparr>lastContent := None\<rparr>)\<rparr>))
       = Inr ''abcd''
   \<and> fst (getPreviousRevisionContent sample_env ''a.txt'' (with_history stale_history))
       = Inr ''abcd''"
proof -
  have c: "revisions_cache (with_history fresh_history) ''a.txt'' = Some fresh_history"
    by (simp add: with_history_simps)
  have e: "revisions fresh_history = []"
    by (simp add: fresh_history_def)
  have c': "revisions_cache (with_history stale_history) ''a.txt'' = Some stale_history"
    by (simp add: with_history_simps)
  have m: "map patch (revisions stale_history) = [[(''abc'', ''abcd'')]]"
    by (simp add: stale_history_def sample_revision_def)
  show ?thesis
    using c e c' m
      reconstruction_ignores_lastContent [OF c, of sample_env "Some ''zzz''"]
      reconstruction_ignores_lastContent [OF c', of sample_env None]
    by (simp add: fresh_history_def stale_history_def sample_revision_def sample_env_simps
          sample_patch_apply_def)
qed

text \<open>
  The claim as it stands fails: \<^verbatim>\<open>saveRevision\<close> with a revision whose \<^verbatim>\<open>lastContent\<close> is
  \<^verbatim>\<open>zzz\<close> and whose patch turns \<^verbatim>\<open>abc\<close> into \<^verbatim>\<open>abcd\<close> leaves a history with
  \<^verbatim>\<open>lastContent\<close> present, and the reconstruction returns \<^verbatim>\<open>abcd\<close>.
\<close>

theorem lastContent_returned_counterexample:
  "revisions_cache
      (snd (saveRevision sample_env ''a.txt'' (sample_revision ''abc'' ''abcd'' (Some ''zzz''))
              (with_history fresh_history))) ''a.txt'' = Some stale_history
   \<and> revisions_cache (with_history stale_history) ''a.txt'' = Some stale_history
   \<and> lastContent stale_history = Some ''zzz''
   \<and> fst (getPreviousRevisionContent sample_env ''a.txt'' (with_history stale_history))
       = Inr ''abcd''"
  by (simp add: saveRevision_def pushPatch_def saveToDisk_def broadcastRevisions_def
        writeFile_def path_exists_def Let_def FILE_SUFFIX_def
        getPreviousRevisionContent_def getRevisions_def revisions_get_def with_history_simps
        stale_history_def fresh_history_def sample_revision_def sample_env_simps
        sample_patch_apply_def)

subsection \<open>The save queue\<close>

text \<open>
  C4. Starting from an empty queue and enqueueing any sequence of requests with no flush
  in between, the queue holds, for each path requested, exactly one entry: the earliest
  request for that path. In particular two requests with the same path leave the first
  one alone in the queue, and two requests with different paths leave both.
\<close>

theorem enqueueDoc_keeps_earliest_per_path:
  assumes "docQueue s = []"
  shows "(\<forall>r \<in> set rs.
            map Some (filter (\<lambda>e. path (snd e) = path (snd r))
                        (docQueue (foldl (\<lambda>s r. enqueueDoc (fst r) (snd r) s) s rs)))
              = [find (\<lambda>e. path (snd e) = path (snd r)) rs])
         \<and> docQueue (enqueueDoc u2 m2 (enqueueDoc u1 m1 s))
             = (if path m2 = path m1 then [(u1, m1)] else [(u1, m1), (u2, m2)])"
  using assms enqueue_all_inv [OF assms, of rs]
  by (auto simp: enqueueDoc_def)

theorem enqueueDoc_keeps_earliest_per_path_witness:
  "docQueue sample_plugin = []
   \<and> docQueue (foldl (\<lambda>s r. enqueueDoc (fst r) (snd r) s) sample_plugin
        [(sample_user, sample_message ''a.txt'' (Some ''one'')),
         (sample_user, sample_message ''a.txt'' (Some ''two'')),
         (sample_user, sample_message ''b.txt'' (Some ''three''))])
      = [(sample_user, sample_message ''a.txt'' (Some ''one'')),
         (sample_user, sample_message ''b.txt'' (Some ''three''))]
   \<and> docQueue (enqueueDoc sample_user (sample_message ''a.txt'' (Some ''two''))
        (enqueueDoc sample_user (sample_message ''a.txt'' (Some ''one'')) sample_plugin))
      = [(sample_user, sample_message ''a.txt'' (Some ''one''))]"
proof -
  have q: "docQueue sample_plugin = []"
    by (simp add: sample_plugin_def)
  show ?thesis
    using q enqueueDoc_keeps_earliest_per_path [OF q,
        of "[(sample_user, sample_message ''a.txt'' (Some ''one'')),
         (sample_user, sample_message ''a.txt'' (Some ''two'')),
         (sample_user, sample_message ''b.txt'' (Some ''three''))]"
        sample_user "sample_message ''a.txt'' (Some ''two'')"
        sample_user "sample_message ''a.txt'' (Some ''one'')"]
    by (simp add: enqueueDoc_def sample_message_def)
qed

subsection \<open>Loading, creating and persisting histories\<close>

text \<open>
  C5, amended. Take a path that is not the name of a member of \<^verbatim>\<open>Object.prototype\<close>, with
  no history in the table and no revision file on disk. If the workspace directory is
  not configured, \<^verbatim>\<open>getRevisions\<close> calls back with an error before any file is read.
  Otherwise it reads the original file; if that read fails it calls back with the error,
  and nothing is cached or written. If not, with \<open>X\<close> the text read, it builds the
  history with \<^verbatim>\<open>originalContent\<close> \<open>X\<close> and no records and writes it to the revision file;
  if the write fails it calls back with the error and nothing is cached; if not, the
  history is in the file and in the table when the callback receives it.
\<close>

theorem getRevisions_creates_history:
  assumes "revisions_cache s p = None"
    and "p \<notin> set Object_prototype_members"
    and "files s (getAbsolutePath E p @ ''.'' @ FILE_SUFFIX) = None"
  shows "(\<not> truthy (workspaceDir s) \<longrightarrow> getRevisions E p s = (Inl NoWorkspaceDir, s))
       \<and> (truthy (workspaceDir s)
            \<and> (files s (getRealFile E p) = None \<or> getRealFile E p \<in> read_fails s) \<longrightarrow>
            getRevisions E p s = (Inl (ReadError (getRealFile E p)), s))
       \<and> (\<forall>X. truthy (workspaceDir s)
            \<and> files s (getRealFile E p) = Some X \<and> getRealFile E p \<notin> read_fails s \<longrightarrow>
            getRevisions E p s =
              (if getAbsolutePath E p @ ''.'' @ FILE_SUFFIX \<in> write_fails s
               then (Inl (WriteError (getAbsolutePath E p @ ''.'' @ FILE_SUFFIX)), s)
               else (Inr (History \<lparr>originalContent = X, revisions = [], lastContent = None\<rparr>),
                     s\<lparr>files := (files s)(getAbsolutePath E p @ ''.'' @ FILE_SUFFIX \<mapsto>
                            json_stringify E
                              \<lparr>originalContent = X, revisions = [], lastContent = None\<rparr>),
                       revisions_cache := (revisions_cache s)(p \<mapsto>
                            \<lparr>originalContent = X, revisions = [], lastContent = None\<rparr>)\<rparr>)))"
  using assms
  by (auto simp: getRevisions_def revisions_get_def readFile_def writeFile_def path_exists_def
        Let_def cacheRevision_def createEmptyStack_def split: option.splits)

theorem getRevisions_creates_history_witness:
  "revisions_cache sample_plugin ''a.txt'' = None
   \<and> ''a.txt'' \<notin> set Object_prototype_members
   \<and> files sample_plugin (getAbsolutePath sample_env ''a.txt'' @ ''.'' @ FILE_SUFFIX) = None
   \<and> truthy (workspaceDir sample_plugin)
   \<and> files sample_plugin (getRealFile sample_env ''a.txt'') = Some ''abc''
   \<and> getRealFile sample_env ''a.txt'' \<notin> read_fails sample_plugin
   \<and> fst (getRevisions sample_env ''a.txt'' sample_plugin)
       = Inr (History \<lparr>originalContent = ''abc'', revisions = [], lastContent = None\<rparr>)
   \<and> files (snd (getRevisions sample_env ''a.txt'' sample_plugin))
        ''/ws/.c9revisions/a.txt.c9save''
       = Some (json_stringify sample_env
                 \<lparr>originalContent = ''abc'', revisions = [], lastContent = None\<rparr>)
   \<and> revisions_cache (snd (getRevisions sample_env ''a.txt'' sample_plugin)) ''a.txt''
       = Some \<lparr>originalContent = ''abc'', revisions = [], lastContent = None\<rparr>
   \<and> revisions_cache unconfigured ''a.txt'' = None
   \<and> files unconfigured (getAbsolutePath sample_env ''a.txt'' @ ''.'' @ FILE_SUFFIX) = None
   \<and> \<not> truthy (workspaceDir unconfigured)
   \<and> getRevisions sample_env ''a.txt'' unconfigured = (Inl NoWorkspaceDir, unconfigured)"
proof -
  have c: "revisions_cache sample_plugin ''a.txt'' = None"
    by (simp add: sample_plugin_def)
  have n: "''a.txt'' \<notin> set Object_prototype_members"
    by (simp add: Object_prototype_members_def)
  have f: "files sample_plugin (getAbsolutePath sample_env ''a.txt'' @ ''.'' @ FILE_SUFFIX) = None"
    by (simp add: sample_plugin_def sample_env_simps FILE_SUFFIX_def)
  have c': "revisions_cache unconfigured ''a.txt'' = None"
    by (simp add: unconfigured_def sample_plugin_def)
  have f': "files unconfigured (getAbsolutePath sample_env ''a.txt'' @ ''.'' @ FILE_SUFFIX) = None"
    by (simp add: unconfigured_def sample_plugin_def sample_env_simps FILE_SUFFIX_def)
  have w': "\<not> truthy (workspaceDir unconfigured)"
    by (simp add: unconfigured_def)
  show ?thesis
    using c n f c' f' w' getRevisions_creates_history [OF c n f]
      getRevisions_creates_history [OF c' n f']
    by (simp add: sample_plugin_def sample_env_simps FILE_SUFFIX_def)
qed

text \<open>
  The claim as it stands fails. Without a configured workspace directory nothing is
  read or created although the original file is readable and the revision file could be
  written. And for the path \<^verbatim>\<open>constructor\<close> the table lookup finds the inherited member:
  \<^verbatim>\<open>getRevisions\<close> hands it to the callback and reads, creates and writes nothing.
\<close>

theorem getRevisions_creates_history_counterexample:
  "revisions_cache unconfigured ''a.txt'' = None
   \<and> files unconfigured (getAbsolutePath sample_env ''a.txt'' @ ''.'' @ FILE_SUFFIX) = None
   \<and> readFile unconfigured (getRealFile sample_env ''a.txt'') = Inr ''abc''
   \<and> write_fails unconfigured = {}
   \<and> getRevisions sample_env ''a.txt'' unconfigured = (Inl NoWorkspaceDir, unconfigured)
   \<and> revisions_cache with_constructor ''constructor'' = None
   \<and> files with_constructor
        (getAbsolutePath sample_env ''constructor'' @ ''.'' @ FILE_SUFFIX) = None
   \<and> readFile with_constructor (getRealFile sample_env ''constructor'') = Inr ''X''
   \<and> write_fails with_constructor = {}
   \<and> getRevisions sample_env ''constructor'' with_constructor
       = (Inr Inherited, with_constructor)"
  by (simp add: getRevisions_def revisions_get_def readFile_def Object_prototype_members_def
        unconfigured_def with_constructor_def sample_plugin_def sample_env_simps
        FILE_SUFFIX_def)




text \<open>
  C7. Let a path have a history in the table (so the path is not the name of a member of
  \<^verbatim>\<open>Object.prototype\<close>: for those the table never holds a history) whose serialization
  is in its revision file, let parsing that file give back a history with the same
  original text and the same patches, and let the workspace directory be configured and
  the file readable. Then \<^verbatim>\<open>purgeCache\<close> empties the table and changes no file, the next
  \<^verbatim>\<open>getRevisions\<close> succeeds with the parsed history, and the content reconstructed after
  the purge is the content reconstructed before it.
\<close>

theorem purge_then_reload_same_content:
  assumes "revisions_cache s p = Some h"
    and "p \<notin> set Object_prototype_members"
    and "files s (getAbsolutePath E p @ ''.'' @ FILE_SUFFIX) = Some (json_stringify E h)"
    and "json_parse E (json_stringify E h) = Some h'"
    and "originalContent h' = originalContent h"
    and "map patch (revisions h') = map patch (revisions h)"
    and "truthy (workspaceDir s)"
    and "getAbsolutePath E p @ ''.'' @ FILE_SUFFIX \<notin> read_fails s"
  shows "revisions_cache (purgeCache s) = Map.empty
         \<and> files (purgeCache s) = files s
         \<and> getRevisions E p (purgeCache s)
             = (Inr (History h'), (purgeCache s)\<lparr>revisions_cache := [p \<mapsto> h']\<rparr>)
         \<and> fst (getPreviousRevisionContent E p (purgeCache s))
             = fst (getPreviousRevisionContent E p s)"
proof -
  have g: "getRevisions E p (purgeCache s)
             = (Inr (History h'), (purgeCache s)\<lparr>revisions_cache := [p \<mapsto> h']\<rparr>)"
    using assms
    by (simp add: getRevisions_def revisions_get_def purgeCache_def path_exists_def
          readFile_def cacheRevision_def Let_def)
  have "forEach_patch_apply E (revisions h') (originalContent h')
          = forEach_patch_apply E (revisions h) (originalContent h)"
    using assms(5) forEach_patch_apply_cong [OF assms(6)] by simp
  then have "fst (getPreviousRevisionContent E p (purgeCache s))
               = fst (getPreviousRevisionContent E p s)"
    using g getRevisions_hit [OF assms(1), of E] assms(5)
    by (simp add: getPreviousRevisionContent_of split: sum.splits)
  with g show ?thesis by (simp add: purgeCache_def)
qed

theorem purge_then_reload_same_content_witness:
  "revisions_cache (with_history grown_history) ''a.txt'' = Some grown_history
   \<and> ''a.txt'' \<notin> set Object_prototype_members
   \<and> files (with_history grown_history) (getAbsolutePath sample_env ''a.txt'' @ ''.'' @ FILE_SUFFIX)
       = Some (json_stringify sample_env grown_history)
   \<and> json_parse sample_env (json_stringify sample_env grown_history) = Some grown_history
   \<and> truthy (workspaceDir (with_history grown_history))
   \<and> getAbsolutePath sample_env ''a.txt'' @ ''.'' @ FILE_SUFFIX
       \<notin> read_fails (with_history grown_history)
   \<and> fst (getRevisions sample_env ''a.txt'' (purgeCache (with_history grown_history)))
       = Inr (History grown_history)
   \<and> fst (getPreviousRevisionContent sample_env ''a.txt'' (purgeCache (with_history grown_history)))
       = fst (getPreviousRevisionContent sample_env ''a.txt'' (with_history grown_history))
   \<and> fst (getPreviousRevisionContent sample_env ''a.txt'' (with_history grown_history))
       = Inr ''abcde''"
proof -
  have c: "revisions_cache (with_history grown_history) ''a.txt'' = Some grown_history"
    by (simp add: with_history_simps)
  have n: "''a.txt'' \<notin> set Object_prototype_members"
    by (simp add: Object_prototype_members_def)
  have f: "files (with_history grown_history)
             (getAbsolutePath sample_env ''a.txt'' @ ''.'' @ FILE_SUFFIX)
           = Some (json_stringify sample_env grown_history)"
    by (simp add: with_history_simps sample_env_simps FILE_SUFFIX_def)
  have j: "json_parse sample_env (json_stringify sample_env grown_history) = Some grown_history"
    unfolding sample_env_simps by code_simp
  have w: "truthy (workspaceDir (with_history grown_history))"
    by (simp add: with_history_simps)
  have r: "getAbsolutePath sample_env ''a.txt'' @ ''.'' @ FILE_SUFFIX
             \<notin> read_fails (with_history grown_history)"
    by (simp add: with_history_simps)
  have v: "fst (getPreviousRevisionContent sample_env ''a.txt'' (with_history grown_history))
             = Inr ''abcde''"
    by (simp add: getPreviousRevisionContent_def getRevisions_def revisions_get_def
          with_history_simps grown_history_def sample_revision_def sample_env_simps
          sample_patch_apply_def)
  show ?thesis
    using c n f j w r v purge_then_reload_same_content [OF c n f j refl refl w r]
    by simp
qed

subsection \<open>Resolving the current content\<close>

text \<open>
  C10, amended. A message whose \<^verbatim>\<open>content\<close> is the empty string is treated as one
  without content: \<^verbatim>\<open>getCurrentDoc\<close> goes to the session table and answers with the text
  of the live session of the path, and with nothing when no session has a document.
  In that case \<^verbatim>\<open>saveRevisionFromMsg\<close> saves nothing: when the reconstruction of the
  previous content succeeds it calls back with the error that the contents could not
  be retrieved, and when the reconstruction fails it ends with that failure instead,
  the content being tested after it.
\<close>

theorem empty_content_is_unavailable:
  assumes "content msg = Some []"
  shows "getCurrentDoc E (path msg) (Some msg) s =
           (case sessions s (getSessionStylePath E (path msg)) of
              Some (WithDocument d) \<Rightarrow> Some (case d of None \<Rightarrow> [] | Some t \<Rightarrow> t)
            | _ \<Rightarrow> None)
         \<and> ((\<forall>d. sessions s (getSessionStylePath E (path msg)) \<noteq> Some (WithDocument d)) \<longrightarrow>
               getCurrentDoc E (path msg) (Some msg) s = None
               \<and> saveRevisionFromMsg E usr msg s =
                   (case getPreviousRevisionContent E (path msg) s of
                      (Inl err, s') \<Rightarrow> (Inl err, s')
                    | (Inr previousRev, s') \<Rightarrow> (Inl (ContentUnavailable (path msg)), s')))"
proof -
  have fall: "getCurrentDoc E (path msg) (Some msg) s =
           (case sessions s (getSessionStylePath E (path msg)) of
              Some (WithDocument d) \<Rightarrow> Some (case d of None \<Rightarrow> [] | Some t \<Rightarrow> t)
            | _ \<Rightarrow> None)"
    using assms by (simp add: getCurrentDoc_def)
  have "(\<forall>d. sessions s (getSessionStylePath E (path msg)) \<noteq> Some (WithDocument d)) \<longrightarrow>
               getCurrentDoc E (path msg) (Some msg) s = None
               \<and> saveRevisionFromMsg E usr msg s =
                   (case getPreviousRevisionContent E (path msg) s of
                      (Inl err, s') \<Rightarrow> (Inl err, s')
                    | (Inr previousRev, s') \<Rightarrow> (Inl (ContentUnavailable (path msg)), s'))"
  proof
    assume n: "\<forall>d. sessions s (getSessionStylePath E (path msg)) \<noteq> Some (WithDocument d)"
    have none: "getCurrentDoc E (path msg) (Some msg) s = None"
      using n unfolding fall by (auto split: option.splits docSession.splits)
    then show "getCurrentDoc E (path msg) (Some msg) s = None
               \<and> saveRevisionFromMsg E usr msg s =
                   (case getPreviousRevisionContent E (path msg) s of
                      (Inl err, s') \<Rightarrow> (Inl err, s')
                    | (Inr previousRev, s') \<Rightarrow> (Inl (ContentUnavailable (path msg)), s'))"
      by (simp add: saveRevisionFromMsg_def Let_def split: prod.splits sum.splits)
  qed
  with fall show ?thesis by blast
qed

theorem empty_content_is_unavailable_witness:
  "content (sample_message ''a.txt'' (Some [])) = Some []
   \<and> getCurrentDoc sample_env ''a.txt'' (Some (sample_message ''a.txt'' (Some []))) with_session
       = Some ''xyz''
   \<and> (\<forall>d. sessions (with_history grown_history)
             (getSessionStylePath sample_env (path (sample_message ''a.txt'' (Some []))))
           \<noteq> Some (WithDocument d))
   \<and> getCurrentDoc sample_env ''a.txt'' (Some (sample_message ''a.txt'' (Some [])))
        (with_history grown_history) = None
   \<and> getPreviousRevisionContent sample_env ''a.txt'' (with_history grown_history)
       = (Inr ''abcde'', with_history grown_history)
   \<and> saveRevisionFromMsg sample_env sample_user (sample_message ''a.txt'' (Some []))
        (with_history grown_history)
       = (Inl (ContentUnavailable ''a.txt''), with_history grown_history)"
proof -
  have c: "content (sample_message ''a.txt'' (Some [])) = Some []"
    by (simp add: sample_message_def)
  have v: "getPreviousRevisionContent sample_env ''a.txt'' (with_history grown_history)
             = (Inr ''abcde'', with_history grown_history)"
    by (simp add: getPreviousRevisionContent_def getRevisions_def revisions_get_def
          with_history_simps grown_history_def sample_revision_def sample_env_simps
          sample_patch_apply_def)
  have p: "path (sample_message ''a.txt'' (Some [])) = ''a.txt''"
    by (simp add: sample_message_def)
  show ?thesis
    using c empty_content_is_unavailable [OF c, of sample_env with_session sample_user]
      empty_content_is_unavailable [OF c, of sample_env "with_history grown_history" sample_user]
    by (simp add: p v with_history_simps with_session_def sample_env_simps)
qed

text \<open>
  The claim as it stands fails: without a configured workspace directory the request
  with empty content and no session fails with the error of the history retrieval, not
  with the error that the contents could not be retrieved.
\<close>

theorem content_unavailable_error_counterexample:
  "content (sample_message ''a.txt'' (Some [])) = Some []
   \<and> sessions unconfigured
        (getSessionStylePath sample_env (path (sample_message ''a.txt'' (Some [])))) = None
   \<and> getCurrentDoc sample_env ''a.txt'' (Some (sample_message ''a.txt'' (Some []))) unconfigured
       = None
   \<and> saveRevisionFromMsg sample_env sample_user (sample_message ''a.txt'' (Some []))
        unconfigured
       = (Inl NoWorkspaceDir, unconfigured)"
  by (simp add: run_defs unconfigured_def sample_plugin_def)

subsection \<open>Appending a revision\<close>

text \<open>
  C3, amended. If the history retrieval of a save request fails, the request fails and
  nothing is broadcast; so it is for \<^verbatim>\<open>saveRevisionFromMsg\<close> when the reconstruction of the
  previous content fails or the current content cannot be resolved. \<^verbatim>\<open>pushPatch\<close> itself
  does not test the content it resolves. Once the history has been retrieved (and, for
  \<^verbatim>\<open>saveRevisionFromMsg\<close>, the content resolved), the history with the new record
  appended is broadcast to all clients before \<^verbatim>\<open>saveToDisk\<close> is called: the broadcast is
  emitted whether the disk persist then succeeds or fails.
\<close>

theorem broadcast_before_persist:
  "(\<forall>e s'. getRevisions E p s = (Inl e, s') \<longrightarrow>
      pushPatch E p r cd s = (Inl (CouldNotRetrieve p), s))
   \<and> (\<forall>h s'. getRevisions E p s = (Inr (History h), s') \<longrightarrow>
      pushPatch E p r cd s =
        saveToDisk E p
          (broadcastRevisions
             (h\<lparr>lastContent := (if truthy cd then cd else getCurrentDoc E p None s),
                revisions := revisions h @ [r]\<rparr>) None None
             (s'\<lparr>revisions_cache := (revisions_cache s')(p \<mapsto>
                  h\<lparr>lastContent := (if truthy cd then cd else getCurrentDoc E p None s),
                     revisions := revisions h @ [r]\<rparr>)\<rparr>))
      \<and> sent (snd (pushPatch E p r cd s)) =
          sent s @ [\<lparr>receiver = ToIde, subtype = ''getRevisionHistory'',
                     body = h\<lparr>lastContent := (if truthy cd then cd else getCurrentDoc E p None s),
                              revisions := revisions h @ [r]\<rparr>,
                     data_originalContent = None, data_path = None\<rparr>])
   \<and> ((\<exists>e. fst (getPreviousRevisionContent E (path m) s) = Inl e)
        \<or> getCurrentDoc E (path m) (Some m) s = None \<longrightarrow>
      (\<exists>e. fst (saveRevisionFromMsg E u m s) = Inl e)
      \<and> sent (snd (saveRevisionFromMsg E u m s)) = sent s)
   \<and> (\<forall>c doc h s1. getPreviousRevisionContent E (path m) s = (Inr c, s1)
        \<and> getCurrentDoc E (path m) (Some m) s = Some doc
        \<and> getRevisions E (path m) s = (Inr (History h), s1) \<longrightarrow>
      sent (snd (saveRevisionFromMsg E u m s)) =
        sent s @ [\<lparr>receiver = ToIde, subtype = ''getRevisionHistory'',
                   body = h\<lparr>lastContent := Some doc,
                            revisions := revisions h @
                              [\<lparr>ts = now s, silentsave = msg_silentsave m,
                                restoring = msg_restoring m,
                                patch = [patch_make E c doc], length_rev = length doc,
                                contributors =
                                  (case email u of
                                     None \<Rightarrow> None
                                   | Some e \<Rightarrow>
                                       if (case msg_contributors m of
                                             None \<Rightarrow> True | Some cs \<Rightarrow> cs = [])
                                          \<and> e \<noteq> []
                                       then Some [e] else None),
                                rev_lastContent = None\<rparr>]\<rparr>,
                   data_originalContent = None, data_path = None\<rparr>])"
proof -
  have A: "\<forall>e s'. getRevisions E p s = (Inl e, s') \<longrightarrow>
      pushPatch E p r cd s = (Inl (CouldNotRetrieve p), s)"
    using pushPatch_Inl by blast
  have B: "\<forall>h s'. getRevisions E p s = (Inr (History h), s') \<longrightarrow>
      pushPatch E p r cd s =
        saveToDisk E p
          (broadcastRevisions
             (h\<lparr>lastContent := (if truthy cd then cd else getCurrentDoc E p None s),
                revisions := revisions h @ [r]\<rparr>) None None
             (s'\<lparr>revisions_cache := (revisions_cache s')(p \<mapsto>
                  h\<lparr>lastContent := (if truthy cd then cd else getCurrentDoc E p None s),
                     revisions := revisions h @ [r]\<rparr>)\<rparr>))
      \<and> sent (snd (pushPatch E p r cd s)) =
          sent s @ [\<lparr>receiver = ToIde, subtype = ''getRevisionHistory'',
                     body = h\<lparr>lastContent := (if truthy cd then cd else getCurrentDoc E p None s),
                              revisions := revisions h @ [r]\<rparr>,
                     data_originalContent = None, data_path = None\<rparr>]"
    using pushPatch_of pushPatch_sent by blast
  have C: "(\<exists>e. fst (getPreviousRevisionContent E (path m) s) = Inl e)
        \<or> getCurrentDoc E (path m) (Some m) s = None \<longrightarrow>
      (\<exists>e. fst (saveRevisionFromMsg E u m s) = Inl e)
      \<and> sent (snd (saveRevisionFromMsg E u m s)) = sent s"
  proof
    assume a: "(\<exists>e. fst (getPreviousRevisionContent E (path m) s) = Inl e)
        \<or> getCurrentDoc E (path m) (Some m) s = None"
    obtain x s1 where x: "getPreviousRevisionContent E (path m) s = (x, s1)"
      by (cases "getPreviousRevisionContent E (path m) s")
    show "(\<exists>e. fst (saveRevisionFromMsg E u m s) = Inl e)
        \<and> sent (snd (saveRevisionFromMsg E u m s)) = sent s"
    proof (cases x)
      case (Inl e)
      with x saveRevisionFromMsg_fails(1) [of E m s e s1 u] show ?thesis by simp
    next
      case (Inr c)
      with a x have "getCurrentDoc E (path m) (Some m) s = None" by simp
      with Inr x saveRevisionFromMsg_fails(2) [of E m s c s1 u] show ?thesis by simp
    qed
  qed
  have D: "\<forall>c doc h s1. getPreviousRevisionContent E (path m) s = (Inr c, s1)
        \<and> getCurrentDoc E (path m) (Some m) s = Some doc
        \<and> getRevisions E (path m) s = (Inr (History h), s1) \<longrightarrow>
      sent (snd (saveRevisionFromMsg E u m s)) =
        sent s @ [\<lparr>receiver = ToIde, subtype = ''getRevisionHistory'',
                   body = h\<lparr>lastContent := Some doc,
                            revisions := revisions h @
                              [\<lparr>ts = now s, silentsave = msg_silentsave m,
                                restoring = msg_restoring m,
                                patch = [patch_make E c doc], length_rev = length doc,
                                contributors =
                                  (case email u of
                                     None \<Rightarrow> None
                                   | Some e \<Rightarrow>
                                       if (case msg_contributors m of
                                             None \<Rightarrow> True | Some cs \<Rightarrow> cs = [])
                                          \<and> e \<noteq> []
                                       then Some [e] else None),
                                rev_lastContent = None\<rparr>]\<rparr>,
                   data_originalContent = None, data_path = None\<rparr>]"
  proof (intro allI impI)
    fix c doc h s1
    assume a: "getPreviousRevisionContent E (path m) s = (Inr c, s1)
        \<and> getCurrentDoc E (path m) (Some m) s = Some doc
        \<and> getRevisions E (path m) s = (Inr (History h), s1)"
    define rv where "rv = \<lparr>ts = now s, silentsave = msg_silentsave m,
                                restoring = msg_restoring m,
                                patch = [patch_make E c doc], length_rev = length doc,
                                contributors =
                                  (case email u of
                                     None \<Rightarrow> None
                                   | Some e \<Rightarrow>
                                       if (case msg_contributors m of
                                             None \<Rightarrow> True | Some cs \<Rightarrow> cs = [])
                                          \<and> e \<noteq> []
                                       then Some [e] else None),
                                rev_lastContent = None\<rparr>"
    have fr: "sent s1 = sent s" "now s1 = now s" "sessions s1 = sessions s"
      using a getRevisions_frame [of E "path m" s "Inr (History h)" s1] by simp_all
    have hit: "getRevisions E (path m) s1 = (Inr (History h), s1)"
      using a getRevisions_hit [OF getRevisions_Inr_cached, of E "path m" s h s1 E] by simp
    have eq: "saveRevisionFromMsg E u m s = pushPatch E (path m) rv (Some doc) s1"
      using a fr(2) by (simp add: saveRevisionFromMsg_def Let_def rv_def)
    have lc: "(if truthy (Some doc) then Some doc else getCurrentDoc E (path m) None s1) = Some doc"
      using a getCurrentDoc_empty [of E "path m" m s]
        getCurrentDoc_frame [OF fr(3), of E "path m" None]
      by auto
    show "sent (snd (saveRevisionFromMsg E u m s)) =
        sent s @ [\<lparr>receiver = ToIde, subtype = ''getRevisionHistory'',
                   body = h\<lparr>lastContent := Some doc, revisions := revisions h @
                              [\<lparr>ts = now s, silentsave = msg_silentsave m,
                                restoring = msg_restoring m,
                                patch = [patch_make E c doc], length_rev = length doc,
                                contributors =
                                  (case email u of
                                     None \<Rightarrow> None
                                   | Some e \<Rightarrow>
                                       if (case msg_contributors m of
                                             None \<Rightarrow> True | Some cs \<Rightarrow> cs = [])
                                          \<and> e \<noteq> []
                                       then Some [e] else None),
                                rev_lastContent = None\<rparr>]\<rparr>,
                   data_originalContent = None, data_path = None\<rparr>]"
      using pushPatch_sent [OF hit, of rv "Some doc"] lc fr(1)
      unfolding eq rv_def [symmetric] by simp
  qed
  show ?thesis by (rule conjI [OF A conjI [OF B conjI [OF C D]]])
qed

theorem broadcast_before_persist_witness:
  "getRevisions sample_env ''a.txt'' (with_history fresh_history)
     = (Inr (History fresh_history), with_history fresh_history)
   \<and> getCurrentDoc sample_env ''a.txt'' None (with_history fresh_history) = None
   \<and> fst (pushPatch sample_env ''a.txt'' (sample_revision ''abc'' ''abcd'' None) None
            (with_history fresh_history))
       = Inr (''/ws/.c9revisions/a.txt.c9save'',
              \<lparr>originalContent = ''abc'', revisions = [sample_revision ''abc'' ''abcd'' None],
               lastContent = None\<rparr>)
   \<and> sent (snd (pushPatch sample_env ''a.txt'' (sample_revision ''abc'' ''abcd'' None) None
                  (with_history fresh_history)))
       = [\<lparr>receiver = ToIde, subtype = ''getRevisionHistory'',
           body = \<lparr>originalContent = ''abc'',
                   revisions = [sample_revision ''abc'' ''abcd'' None], lastContent = None\<rparr>,
           data_originalContent = None, data_path = None\<rparr>]
   \<and> getPreviousRevisionContent sample_env ''a.txt'' (with_history fresh_history)
       = (Inr ''abc'', with_history fresh_history)
   \<and> getCurrentDoc sample_env ''a.txt'' (Some (sample_message ''a.txt'' (Some ''abcd'')))
        (with_history fresh_history) = Some ''abcd''
   \<and> sent (snd (saveRevisionFromMsg sample_env sample_user
                  (sample_message ''a.txt'' (Some ''abcd'')) (with_history fresh_history)))
       = [\<lparr>receiver = ToIde, subtype = ''getRevisionHistory'',
           body = \<lparr>originalContent = ''abc'',
                   revisions = [\<lparr>ts = 7, silentsave = None, restoring = None,
                                 patch = [(''abc'', ''abcd'')], length_rev = 4,
                                 contributors = Some [''dev@example.org''],
                                 rev_lastContent = None\<rparr>],
                   lastContent = Some ''abcd''\<rparr>,
           data_originalContent = None, data_path = None\<rparr>]
   \<and> getRevisions sample_env ''a.txt'' unconfigured = (Inl NoWorkspaceDir, unconfigured)
   \<and> pushPatch sample_env ''a.txt'' (sample_revision ''abc'' ''abcd'' None) None unconfigured
       = (Inl (CouldNotRetrieve ''a.txt''), unconfigured)
   \<and> fst (getPreviousRevisionContent sample_env ''a.txt'' unconfigured) = Inl NoWorkspaceDir
   \<and> sent (snd (saveRevisionFromMsg sample_env sample_user
                 (sample_message ''a.txt'' (Some ''abcd'')) unconfigured)) = []"
  using
    broadcast_before_persist [of sample_env "''a.txt''" "with_history fresh_history"
      "sample_revision ''abc'' ''abcd'' None" None
      "sample_message ''a.txt'' (Some ''abcd'')" sample_user]
    broadcast_before_persist [of sample_env "''a.txt''" unconfigured
      "sample_revision ''abc'' ''abcd'' None" None
      "sample_message ''a.txt'' (Some ''abcd'')" sample_user]
  by (simp add: run_defs with_history_simps fresh_history_def unconfigured_def sample_plugin_def)

text \<open>
  The claim as it stands fails: when the write of the revision file fails, the save
  request fails and the updated history has been broadcast all the same.
\<close>

theorem no_broadcast_on_failure_counterexample:
  "sent unwritable = []
   \<and> fst (saveRevisionFromMsg sample_env sample_user (sample_message ''a.txt'' (Some ''abcd''))
            unwritable)
       = Inl (CouldNotSave ''/ws/.c9revisions/a.txt.c9save'')
   \<and> sent (snd (saveRevisionFromMsg sample_env sample_user
                  (sample_message ''a.txt'' (Some ''abcd'')) unwritable))
       = [\<lparr>receiver = ToIde, subtype = ''getRevisionHistory'',
           body = \<lparr>originalContent = ''abc'',
                   revisions = [\<lparr>ts = 7, silentsave = None, restoring = None,
                                 patch = [(''abc'', ''abcd'')], length_rev = 4,
                                 contributors = Some [''dev@example.org''],
                                 rev_lastContent = None\<rparr>],
                   lastContent = Some ''abcd''\<rparr>,
           data_originalContent = None, data_path = None\<rparr>]"
  by (simp add: run_defs with_history_simps fresh_history_def unwritable_def)

text \<open>
  C6, amended. For a path whose history \<^verbatim>\<open>getRevisions\<close> delivers, a successful
  \<^verbatim>\<open>pushPatch\<close> (directly, through \<^verbatim>\<open>saveRevision\<close> or through \<^verbatim>\<open>saveRevisionFromMsg\<close>)
  leaves the history with exactly one more record, appended after the unchanged earlier
  ones, and the same original text. \<^verbatim>\<open>lastContent\<close> is the content passed to \<^verbatim>\<open>pushPatch\<close>
  when that is a non-empty string; when it is empty or missing, \<^verbatim>\<open>lastContent\<close> is what
  \<^verbatim>\<open>getCurrentDoc\<close> gives for the path (the text of the live session, or nothing).
  Through \<^verbatim>\<open>saveRevisionFromMsg\<close>, \<^verbatim>\<open>lastContent\<close> is always the content that was
  resolved for the request.
\<close>

theorem append_adds_one_record:
  assumes "getRevisions E p s = (Inr (History h), s1)"
  shows "(\<forall>fp h' s2. pushPatch E p r cd s = (Inr (fp, h'), s2) \<longrightarrow>
            revisions h' = revisions h @ [r]
            \<and> length (revisions h') = length (revisions h) + 1
            \<and> originalContent h' = originalContent h
            \<and> lastContent h' = (if truthy cd then cd else getCurrentDoc E p None s)
            \<and> revisions_cache s2 p = Some h')
       \<and> (\<forall>fp h' s2. saveRevision E p r s = (Inr (fp, h'), s2) \<longrightarrow>
            revisions h' = revisions h @ [r]
            \<and> lastContent h' = (if truthy (rev_lastContent r) then rev_lastContent r
                                 else getCurrentDoc E p None s)
            \<and> revisions_cache s2 p = Some h')
       \<and> (\<forall>fp h' s2. path m = p \<and> saveRevisionFromMsg E u m s = (Inr (fp, h'), s2) \<longrightarrow>
            (\<exists>r'. revisions h' = revisions h @ [r'])
            \<and> length (revisions h') = length (revisions h) + 1
            \<and> originalContent h' = originalContent h
            \<and> lastContent h' = getCurrentDoc E p (Some m) s
            \<and> lastContent h' \<noteq> None
            \<and> revisions_cache s2 p = Some h')"
proof -
  have A: "\<forall>fp h' s2. pushPatch E p r cd s = (Inr (fp, h'), s2) \<longrightarrow>
            revisions h' = revisions h @ [r]
            \<and> length (revisions h') = length (revisions h) + 1
            \<and> originalContent h' = originalContent h
            \<and> lastContent h' = (if truthy cd then cd else getCurrentDoc E p None s)
            \<and> revisions_cache s2 p = Some h'"
    using pushPatch_Inr [OF assms] by fastforce
  have B: "\<forall>fp h' s2. saveRevision E p r s = (Inr (fp, h'), s2) \<longrightarrow>
            revisions h' = revisions h @ [r]
            \<and> lastContent h' = (if truthy (rev_lastContent r) then rev_lastContent r
                                 else getCurrentDoc E p None s)
            \<and> revisions_cache s2 p = Some h'"
    using pushPatch_Inr [OF assms] unfolding saveRevision_def by fastforce
  have C: "\<forall>fp h' s2. path m = p \<and> saveRevisionFromMsg E u m s = (Inr (fp, h'), s2) \<longrightarrow>
            (\<exists>r'. revisions h' = revisions h @ [r'])
            \<and> length (revisions h') = length (revisions h) + 1
            \<and> originalContent h' = originalContent h
            \<and> lastContent h' = getCurrentDoc E p (Some m) s
            \<and> lastContent h' \<noteq> None
            \<and> revisions_cache s2 p = Some h'"
  proof (intro allI impI)
    fix fp h' s2
    assume a: "path m = p \<and> saveRevisionFromMsg E u m s = (Inr (fp, h'), s2)"
    obtain x sx where x: "getPreviousRevisionContent E (path m) s = (x, sx)"
      by (cases "getPreviousRevisionContent E (path m) s")
    have "\<exists>c. x = Inr c"
      using a x saveRevisionFromMsg_fails(1) [of E m s _ sx u] by (cases x) auto
    then obtain c where c: "getPreviousRevisionContent E (path m) s = (Inr c, sx)"
      using x by auto
    have "getCurrentDoc E (path m) (Some m) s \<noteq> None"
      using a c saveRevisionFromMsg_fails(2) [of E m s c sx u] by auto
    then obtain doc where doc: "getCurrentDoc E (path m) (Some m) s = Some doc" by auto
    from saveRevisionFromMsg_push [OF c doc, of u]
    obtain h0 rv where h0: "getRevisions E (path m) s = (Inr (History h0), sx)"
        "getRevisions E (path m) sx = (Inr (History h0), sx)"
        "saveRevisionFromMsg E u m s = pushPatch E (path m) rv (Some doc) sx"
      by blast
    have same: "h0 = h" "sx = s1" using h0(1) assms a by simp_all
    have rv: "getRevisions E p sx = (Inr (History h), sx)"
        "pushPatch E p rv (Some doc) sx = (Inr (fp, h'), s2)"
      using h0 same a by simp_all
    have ses: "sessions sx = sessions s"
      using getRevisions_frame [OF assms] same by simp
    have lc: "(if truthy (Some doc) then Some doc else getCurrentDoc E p None sx) = Some doc"
      using doc a getCurrentDoc_empty [of E p m s] getCurrentDoc_frame [OF ses, of E p None]
      by auto
    from pushPatch_Inr [OF rv(1) rv(2)] lc doc a
    show "(\<exists>r'. revisions h' = revisions h @ [r'])
            \<and> length (revisions h') = length (revisions h) + 1
            \<and> originalContent h' = originalContent h
            \<and> lastContent h' = getCurrentDoc E p (Some m) s
            \<and> lastContent h' \<noteq> None
            \<and> revisions_cache s2 p = Some h'"
      by auto
  qed
  show ?thesis by (rule conjI [OF A conjI [OF B C]])
qed

theorem append_adds_one_record_witness:
  "getRevisions sample_env ''a.txt'' (with_history fresh_history)
     = (Inr (History fresh_history), with_history fresh_history)
   \<and> fst (pushPatch sample_env ''a.txt'' (sample_revision ''abc'' ''abcd'' None) (Some ''abcd'')
            (with_history fresh_history))
       = Inr (''/ws/.c9revisions/a.txt.c9save'',
              \<lparr>originalContent = ''abc'', revisions = [sample_revision ''abc'' ''abcd'' None],
               lastContent = Some ''abcd''\<rparr>)
   \<and> fst (saveRevision sample_env ''a.txt'' (sample_revision ''abc'' ''abcd'' None)
            (with_history fresh_history))
       = Inr (''/ws/.c9revisions/a.txt.c9save'',
              \<lparr>originalContent = ''abc'', revisions = [sample_revision ''abc'' ''abcd'' None],
               lastContent = None\<rparr>)
   \<and> path (sample_message ''a.txt'' (Some ''abcd'')) = ''a.txt''
   \<and> fst (saveRevisionFromMsg sample_env sample_user (sample_message ''a.txt'' (Some ''abcd''))
            (with_history fresh_history))
       = Inr (''/ws/.c9revisions/a.txt.c9save'',
              \<lparr>originalContent = ''abc'',
               revisions = [\<lparr>ts = 7, silentsave = None, restoring = None,
                             patch = [(''abc'', ''abcd'')], length_rev = 4,
                             contributors = Some [''dev@example.org''],
                             rev_lastContent = None\<rparr>],
               lastContent = Some ''abcd''\<rparr>)"
proof -
  have g: "getRevisions sample_env ''a.txt'' (with_history fresh_history)
             = (Inr (History fresh_history), with_history fresh_history)"
    by (simp add: getRevisions_def revisions_get_def with_history_simps)
  show ?thesis
    using g append_adds_one_record [OF g, of "sample_revision ''abc'' ''abcd'' None"
              "Some ''abcd''" "sample_message ''a.txt'' (Some ''abcd'')" sample_user]
    by (simp add: run_defs with_history_simps fresh_history_def)
qed

text \<open>
  The claim as it stands fails: \<^verbatim>\<open>saveRevision\<close> with a revision whose \<^verbatim>\<open>lastContent\<close> is
  the empty string, while a live session holds \<^verbatim>\<open>xyz\<close>, succeeds and sets
  \<^verbatim>\<open>lastContent\<close> to \<^verbatim>\<open>xyz\<close>.
\<close>

theorem lastContent_is_appended_content_counterexample:
  "rev_lastContent (sample_revision ''abc'' [] (Some [])) = Some []
   \<and> getRevisions sample_env ''a.txt'' with_session = (Inr (History fresh_history), with_session)
   \<and> fst (saveRevision sample_env ''a.txt'' (sample_revision ''abc'' [] (Some [])) with_session)
       = Inr (''/ws/.c9revisions/a.txt.c9save'',
              \<lparr>originalContent = ''abc'',
               revisions = [sample_revision ''abc'' [] (Some [])],
               lastContent = Some ''xyz''\<rparr>)"
  by (simp add: run_defs with_history_simps fresh_history_def with_session_def)

end
